theory Spec2Isabelle
  imports Main "HOL-Library.AList"
begin

section \<open>Emote extraction (bplib/extract.py)\<close>

text \<open>
  A shallow embedding of \<^verbatim>\<open>src/bplib/extract.py\<close>. Strings are lists of 8-bit
  characters, so the model covers selectors whose code points are below 256. Python
  dictionaries keep insertion order; they are association lists with distinct keys,
  written to with \<^const>\<open>AList.update\<close> (an existing key keeps its place, a new key goes
  to the end). Everything the code prints is collected, in order, in a list of
  \<open>message\<close> values: the constructor says which \<^verbatim>\<open>print\<close> call it was and the
  arguments are the values it formats.
\<close>

subsection \<open>Printed output\<close>

type_synonym name_pair = "string \<times> string option"

datatype message =
    WarnSplit string
  | NoticeExtract name_pair
  | WarnMultiplePseudo string
  | WarnUnknownPseudo string
  | WarnRedefined name_pair string string string
  | WarnExtraProperty name_pair string string
  | ErrorMultipleUnsized string "name_pair list"

subsection \<open>Python truthiness of an optional string\<close>

fun truthy :: "string option \<Rightarrow> bool" where
  "truthy None = False"
| "truthy (Some s) = (s \<noteq> [])"

subsection \<open>The selector pattern\<close>

text \<open>
  \<^verbatim>\<open>re.match(r'a\s*(:[a-zA-Z\-()]+)?\[href.?="(/[\w:!]+)"\](:[a-zA-Z\-()]+)?$', selector)\<close>

  The character classes are those of Python 3 on \<^verbatim>\<open>str\<close> patterns, restricted to
  code points below 256: \<^verbatim>\<open>\s\<close> is 0x09-0x0D, 0x1C-0x20, 0x85 and 0xA0; \<^verbatim>\<open>\w\<close> is the
  ASCII letters, digits and underscore together with the alphanumeric Latin-1 code
  points; \<^verbatim>\<open>.\<close> is every character but the line feed; \<^verbatim>\<open>$\<close> is the end of the
  string or the position before a line feed that ends it.
\<close>

definition in_range :: "char \<Rightarrow> nat \<Rightarrow> nat \<Rightarrow> bool" where
  "in_range c lo hi = (lo \<le> of_char c \<and> (of_char c :: nat) \<le> hi)"

definition newline :: char where
  "newline = CHR 0x0A"

definition is_space :: "char \<Rightarrow> bool" where
  "is_space c = (in_range c 0x09 0x0D \<or> in_range c 0x1C 0x20
     \<or> in_range c 0x85 0x85 \<or> in_range c 0xA0 0xA0)"

definition is_pseudo_char :: "char \<Rightarrow> bool" where
  "is_pseudo_char c = (in_range c 0x61 0x7A \<or> in_range c 0x41 0x5A
     \<or> c = CHR ''-'' \<or> c = CHR ''('' \<or> c = CHR '')'')"

definition is_word_char :: "char \<Rightarrow> bool" where
  "is_word_char c = (in_range c 0x30 0x39 \<or> in_range c 0x41 0x5A \<or> in_range c 0x5F 0x5F
     \<or> in_range c 0x61 0x7A \<or> in_range c 0xAA 0xAA \<or> in_range c 0xB2 0xB3
     \<or> in_range c 0xB5 0xB5 \<or> in_range c 0xB9 0xBA \<or> in_range c 0xBC 0xBE
     \<or> in_range c 0xC0 0xD6 \<or> in_range c 0xD8 0xF6 \<or> in_range c 0xF8 0xFF)"

definition is_name_char :: "char \<Rightarrow> bool" where
  "is_name_char c = (is_word_char c \<or> c = CHR '':'' \<or> c = CHR ''!'')"

text \<open>A literal piece of the pattern: the rest of the input after it, if it is there.\<close>

fun strip_prefix :: "string \<Rightarrow> string \<Rightarrow> string option" where
  "strip_prefix [] s = Some s"
| "strip_prefix (p # ps) [] = None"
| "strip_prefix (p # ps) (c # r) = (if c = p then strip_prefix ps r else None)"

text \<open>
  The optional group \<^verbatim>\<open>(:[a-zA-Z\-()]+)?\<close>: the group and the rest of the input. The
  repetition is greedy. Both times the group is followed by something that no character
  of the class and no colon can match (\<^verbatim>\<open>\[\<close>, then \<^verbatim>\<open>$\<close>), so no shorter match and
  no skipping of a group that can match is ever tried with success.
\<close>

definition opt_pseudo :: "string \<Rightarrow> string option \<times> string" where
  "opt_pseudo s = (case s of
       [] \<Rightarrow> (None, s)
     | c # r \<Rightarrow>
         if c = CHR '':'' \<and> takeWhile is_pseudo_char r \<noteq> []
         then (Some (c # takeWhile is_pseudo_char r), dropWhile is_pseudo_char r)
         else (None, s))"

text \<open>
  \<^verbatim>\<open>.?="\<close>: one character other than a line feed and then the literal, or the literal
  at once. The two cannot both match (the first needs \<^verbatim>\<open>=\<close> as the second character,
  the second needs \<^verbatim>\<open>"\<close> there).
\<close>

definition match_op :: "string \<Rightarrow> string option" where
  "match_op s = (case s of
       [] \<Rightarrow> None
     | c # r \<Rightarrow>
         if c \<noteq> newline \<and> strip_prefix ''=\"'' r \<noteq> None then strip_prefix ''=\"'' r
         else strip_prefix ''=\"'' s)"

text \<open>The group \<^verbatim>\<open>(/[\w:!]+)\<close>, greedy, followed by a character outside its class.\<close>

definition match_name :: "string \<Rightarrow> (string \<times> string) option" where
  "match_name s = (case s of
       [] \<Rightarrow> None
     | c # r \<Rightarrow>
         if c = CHR ''/'' \<and> takeWhile is_name_char r \<noteq> []
         then Some (c # takeWhile is_name_char r, dropWhile is_name_char r)
         else None)"

definition at_end :: "string \<Rightarrow> bool" where
  "at_end s = (s = [] \<or> s = [newline])"

text \<open>The whole pattern; the result is \<^verbatim>\<open>m.groups()\<close>.\<close>

definition match_selector :: "string \<Rightarrow> (string option \<times> string \<times> string option) option" where
  "match_selector s =
     (case strip_prefix ''a'' s of None \<Rightarrow> None | Some r0 \<Rightarrow>
      (case opt_pseudo (dropWhile is_space r0) of (pc1, r2) \<Rightarrow>
      (case strip_prefix ''[href'' r2 of None \<Rightarrow> None | Some r3 \<Rightarrow>
      (case match_op r3 of None \<Rightarrow> None | Some r4 \<Rightarrow>
      (case match_name r4 of None \<Rightarrow> None | Some (emote_name, r5) \<Rightarrow>
      (case strip_prefix ''\"]'' r5 of None \<Rightarrow> None | Some r6 \<Rightarrow>
      (case opt_pseudo r6 of (pc2, r7) \<Rightarrow>
         if at_end r7 then Some (pc1, emote_name, pc2) else None)))))))"

subsection \<open>\<^verbatim>\<open>_parse_emote_selector\<close>\<close>

definition parse_emote_selector :: "string \<Rightarrow> name_pair option \<times> message list" where
  "parse_emote_selector selector =
     (case match_selector selector of
        None \<Rightarrow> (None, [])
      | Some (pc1, emote_name, pc2) \<Rightarrow>
          let out1 = (if truthy pc1 \<and> truthy pc2 then [WarnMultiplePseudo selector] else []);
              psuedo_class = (if truthy pc1 then pc1 else pc2)
          in if truthy psuedo_class then
               (if psuedo_class = Some '':hover'' \<or> psuedo_class = Some '':active''
                then (Some (emote_name, psuedo_class), out1)
                else if psuedo_class \<noteq> Some '':nth-of-type(n)''
                then (Some (emote_name, psuedo_class), out1 @ [WarnUnknownPseudo selector])
                else (Some (emote_name, None), out1))
             else (Some (emote_name, None), out1))"

subsection \<open>The language of the pattern, piece by piece\<close>

text \<open>
  The pieces of a matching selector: white space after the \<^verbatim>\<open>a\<close>, a leading
  pseudo-class or nothing, the comparison character or nothing, the path with its
  leading slash, a trailing pseudo-class or nothing, and a final line feed or nothing.
\<close>

definition pseudo_token :: "string \<Rightarrow> bool" where
  "pseudo_token pc = (case pc of [] \<Rightarrow> False
     | c # r \<Rightarrow> c = CHR '':'' \<and> r \<noteq> [] \<and> list_all is_pseudo_char r)"

definition opt_pseudo_token :: "string \<Rightarrow> bool" where
  "opt_pseudo_token pc = (pc = [] \<or> pseudo_token pc)"

definition op_token :: "string \<Rightarrow> bool" where
  "op_token op = (case op of [] \<Rightarrow> True | [c] \<Rightarrow> c \<noteq> newline | _ \<Rightarrow> False)"

definition path_token :: "string \<Rightarrow> bool" where
  "path_token p = (case p of [] \<Rightarrow> False
     | c # r \<Rightarrow> c = CHR ''/'' \<and> r \<noteq> [] \<and> list_all is_name_char r)"

definition selector_text :: "string \<Rightarrow> string \<Rightarrow> string \<Rightarrow> string \<Rightarrow> string \<Rightarrow> string \<Rightarrow> string" where
  "selector_text ws pc1 op path pc2 nl =
     ''a'' @ ws @ pc1 @ ''[href'' @ op @ ''=\"'' @ path @ ''\"]'' @ pc2 @ nl"

definition group_of :: "string \<Rightarrow> string option" where
  "group_of pc = (if pc = [] then None else Some pc)"

text \<open>
  The grammar as the specification words it: the token \<^verbatim>\<open>a\<close>, at most one
  pseudo-class, either right after the \<^verbatim>\<open>a\<close> or at the end, and the attribute
  selector; no white space, no line feed.
\<close>

definition claimed_grammar :: "string \<Rightarrow> bool" where
  "claimed_grammar s = (\<exists>pc op path. opt_pseudo_token pc \<and> op_token op \<and> path_token path
     \<and> (s = selector_text [] pc op path [] [] \<or> s = selector_text [] [] op path pc []))"

text \<open>A decimal digit, for a pseudo-class with a concrete index.\<close>

definition is_digit :: "char \<Rightarrow> bool" where
  "is_digit c = in_range c 0x30 0x39"

subsection \<open>The data\<close>

text \<open>
  The classes \<^verbatim>\<open>CssRule\<close>, \<^verbatim>\<open>PartialEmote\<close>, \<^verbatim>\<open>CustomEmote\<close>,
  \<^verbatim>\<open>NormalEmote\<close> and \<^verbatim>\<open>Spritesheet\<close> are declared in modules that this file only
  imports; the records have the fields that this file reads, writes and passes to the
  constructors, in the constructors' order.
\<close>

type_synonym props = "(string \<times> string) list"

record css_rule =
  selectors :: "string list"
  properties :: props
  ignore :: bool

record partial_emote =
  name :: string
  suffix :: "string option"
  css :: props

record custom_emote =
  custom_name :: string
  custom_suffix :: "string option"
  custom_css :: props

record normal_emote =
  normal_name :: string
  normal_suffix :: "string option"
  normal_css :: props
  image_url :: string
  emote_size :: "int \<times> int"
  offset :: "(int \<times> int) option"

record spritesheet =
  sheet_url :: string
  sheet_emotes :: "(name_pair \<times> normal_emote) list"

text \<open>What the code raises: a missing dictionary key, or whatever a css utility raises.\<close>

datatype error = KeyError string | ValueError string

text \<open>\<^verbatim>\<open>d.update(other)\<close> on dictionaries.\<close>

fun dict_update :: "('k \<times> 'v) list \<Rightarrow> ('k \<times> 'v) list \<Rightarrow> ('k \<times> 'v) list" where
  "dict_update d [] = d"
| "dict_update d ((k, v) # items) = dict_update (AList.update k v d) items"

subsection \<open>\<^verbatim>\<open>filter_ponyscript_ignores\<close>\<close>

definition START :: string where
  "START = ''START-PONYSCRIPT-IGNORE''"

definition END :: string where
  "END = ''END-PONYSCRIPT-IGNORE''"

text \<open>The inner loop over the selectors of one rule.\<close>

fun split_detect :: "string set \<Rightarrow> string set \<Rightarrow> string list \<Rightarrow> string set \<times> message list" where
  "split_detect add_to refuse_in [] = (add_to, [])"
| "split_detect add_to refuse_in (selector # rest) =
     (case split_detect (insert selector add_to) refuse_in rest of
        (add_to', out) \<Rightarrow>
          (add_to', (if selector \<in> refuse_in then [WarnSplit selector] else []) @ out))"

text \<open>
  The state of the outer loop is \<^verbatim>\<open>(visible, hidden, ignoring)\<close>; one iteration gives
  the new state, the rule with its flag set, and what was printed.
\<close>

type_synonym filter_state = "string set \<times> string set \<times> bool"

definition filter_step :: "filter_state \<Rightarrow> css_rule \<Rightarrow> filter_state \<times> css_rule \<times> message list" where
  "filter_step st rule =
     (case st of (visible, hidden, ignoring0) \<Rightarrow>
        let ignoring = (if START \<in> set (selectors rule) then True else ignoring0) in
        (case split_detect (if ignoring then hidden else visible)
                (if ignoring then visible else hidden) (selectors rule) of
           (add_to, out) \<Rightarrow>
             ((if ignoring then visible else add_to,
               if ignoring then add_to else hidden,
               if END \<in> set (selectors rule) then False else ignoring),
              rule\<lparr>ignore := ignoring\<rparr>, out)))"

fun filter_loop :: "filter_state \<Rightarrow> css_rule list \<Rightarrow> filter_state \<times> css_rule list \<times> message list" where
  "filter_loop st [] = (st, [], [])"
| "filter_loop st (rule # rest) =
     (case filter_step st rule of (st1, rule', out) \<Rightarrow>
        (case filter_loop st1 rest of (st2, rest', out') \<Rightarrow>
           (st2, rule' # rest', out @ out')))"

text \<open>The function returns nothing; the model returns the rules as it leaves them, and the output.\<close>

definition filter_ponyscript_ignores :: "css_rule list \<Rightarrow> css_rule list \<times> message list" where
  "filter_ponyscript_ignores css_rules =
     (case filter_loop ({}, {}, False) css_rules of (st, rules', out) \<Rightarrow> (rules', out))"



subsection \<open>\<^verbatim>\<open>extract_raw_emotes\<close>\<close>

text \<open>
  \<^verbatim>\<open>bplib.emote.combine_name_pair\<close> is not in this file: it is the parameter
  \<open>combine\<close>. \<^verbatim>\<open>args.extract\<close> is the set \<open>extract\<close>. The generator is run to its end:
  the result is the list of what it yields and what it prints.
\<close>

fun extract_pairs :: "(string \<Rightarrow> string option \<Rightarrow> string) \<Rightarrow> string set \<Rightarrow> css_rule \<Rightarrow>
    name_pair list \<Rightarrow> partial_emote list \<times> message list" where
  "extract_pairs combine extract rule [] = ([], [])"
| "extract_pairs combine extract rule ((nm, sfx) # rest) =
     (let extract_explicit = (combine nm sfx \<in> extract) in
      (case extract_pairs combine extract rule rest of (ys, out) \<Rightarrow>
        ((if extract_explicit \<or> \<not> ignore rule
          then [\<lparr>name = nm, suffix = sfx, css = properties rule\<rparr>] else []) @ ys,
         (if extract_explicit then [NoticeExtract (nm, sfx)] else []) @ out)))"

fun extract_raw_emotes :: "(string \<Rightarrow> string option \<Rightarrow> string) \<Rightarrow> string set \<Rightarrow> css_rule list \<Rightarrow>
    partial_emote list \<times> message list" where
  "extract_raw_emotes combine extract [] = ([], [])"
| "extract_raw_emotes combine extract (rule # rest) =
     (let parsed = map parse_emote_selector (selectors rule);
          alias_pairs = List.map_filter fst parsed
      in (case extract_pairs combine extract rule alias_pairs of (ys, out) \<Rightarrow>
           (case extract_raw_emotes combine extract rest of (ys', out') \<Rightarrow>
              (ys @ ys', concat (map snd parsed) @ out @ out'))))"

subsection \<open>\<^verbatim>\<open>build_emote_map\<close>\<close>

type_synonym emote_map = "(name_pair \<times> partial_emote) list"

fun redefined :: "name_pair \<Rightarrow> props \<Rightarrow> props \<Rightarrow> message list" where
  "redefined name_pair base_props [] = []"
| "redefined name_pair base_props ((property, val) # items) =
     (case map_of base_props property of
        Some old \<Rightarrow> if old \<noteq> val then [WarnRedefined name_pair property old val] else []
      | None \<Rightarrow> []) @ redefined name_pair base_props items"

fun build_loop :: "emote_map \<Rightarrow> partial_emote list \<Rightarrow> emote_map \<times> message list" where
  "build_loop emotes [] = (emotes, [])"
| "build_loop emotes (raw_emote # rest) =
     (let name_pair = (name raw_emote, suffix raw_emote) in
      (case map_of emotes name_pair of
         None \<Rightarrow> build_loop (AList.update name_pair raw_emote emotes) rest
       | Some e \<Rightarrow>
           (case build_loop
                   (AList.update name_pair (e\<lparr>css := dict_update (css e) (css raw_emote)\<rparr>) emotes)
                   rest of
              (m, out) \<Rightarrow> (m, redefined name_pair (css e) (css raw_emote) @ out))))"

definition build_emote_map :: "partial_emote list \<Rightarrow> emote_map \<times> message list" where
  "build_emote_map partial_emotes = build_loop [] partial_emotes"

subsection \<open>\<^verbatim>\<open>collapse_specials_properties\<close>\<close>

text \<open>
  The loop visits the values of the dictionary in order and writes to the emote it
  visits; the model visits the keys in order and writes to the entry of the key.
\<close>

definition collapse_step :: "emote_map \<Rightarrow> name_pair \<Rightarrow> emote_map" where
  "collapse_step emotes k =
     (case map_of emotes k of
        None \<Rightarrow> emotes
      | Some emote \<Rightarrow>
          if truthy (suffix emote) then
            (case map_of emotes (name emote, None) of
               None \<Rightarrow> emotes
             | Some base_emote \<Rightarrow>
                 AList.update k (emote\<lparr>css := dict_update (css base_emote) (css emote)\<rparr>) emotes)
          else emotes)"

definition collapse_specials_properties :: "emote_map \<Rightarrow> emote_map" where
  "collapse_specials_properties emotes = foldl collapse_step emotes (map fst emotes)"

text \<open>
  What a dictionary built by \<^const>\<open>build_emote_map\<close> looks like: the keys are distinct
  and each key is the name and suffix of its emote.
\<close>

definition wf_emote_map :: "emote_map \<Rightarrow> bool" where
  "wf_emote_map m = (distinct (map fst m) \<and> list_all (\<lambda>(k, e). k = (name e, suffix e)) m)"

text \<open>
  No emote of the dictionary has the empty string as its suffix: a suffix is null or a
  pseudo-class, as \<^const>\<open>parse_emote_selector\<close> returns it.
\<close>

definition nonempty_suffixes :: "emote_map \<Rightarrow> bool" where
  "nonempty_suffixes m = list_all (\<lambda>(k, e). suffix e \<noteq> Some []) m"

text \<open>The same, read through lookups only.\<close>

definition keyed :: "emote_map \<Rightarrow> bool" where
  "keyed m = (\<forall>k e. map_of m k = Some e \<longrightarrow> k = (name e, suffix e))"

text \<open>
  What the body of the loop makes of one emote, given the dictionary: the copy of the
  base's properties updated with the emote's own, when the suffix is true and the base
  is there.
\<close>

definition collapsed :: "emote_map \<Rightarrow> partial_emote \<Rightarrow> partial_emote" where
  "collapsed emotes emote =
     (if truthy (suffix emote) then
        (case map_of emotes (name emote, None) of
           None \<Rightarrow> emote
         | Some base_emote \<Rightarrow> emote\<lparr>css := dict_update (css base_emote) (css emote)\<rparr>)
      else emote)"

subsection \<open>\<^verbatim>\<open>classify_emotes\<close>\<close>

definition has_key :: "props \<Rightarrow> string \<Rightarrow> bool" where
  "has_key d k = (map_of d k \<noteq> None)"

definition is_normal :: "props \<Rightarrow> bool" where
  "is_normal d = list_all (has_key d) [''background-image'', ''width'', ''height'']"

fun classify_loop :: "(name_pair \<times> partial_emote) list \<times> (name_pair \<times> custom_emote) list \<Rightarrow>
    emote_map \<Rightarrow> (name_pair \<times> partial_emote) list \<times> (name_pair \<times> custom_emote) list" where
  "classify_loop (normal_emotes, custom_emotes) [] = (normal_emotes, custom_emotes)"
| "classify_loop (normal_emotes, custom_emotes) ((name_pair, emote) # rest) =
     (if is_normal (css emote)
      then classify_loop (AList.update name_pair emote normal_emotes, custom_emotes) rest
      else classify_loop (normal_emotes,
             AList.update name_pair
               \<lparr>custom_name = name emote, custom_suffix = suffix emote, custom_css = css emote\<rparr>
               custom_emotes) rest)"

definition classify_emotes :: "emote_map \<Rightarrow>
    (name_pair \<times> partial_emote) list \<times> (name_pair \<times> custom_emote) list" where
  "classify_emotes emote_map = classify_loop ([], []) emote_map"

subsection \<open>\<^verbatim>\<open>build_spritesheet_map\<close>\<close>

text \<open>
  \<^verbatim>\<open>bplib.css.as_url\<close>, \<^verbatim>\<open>as_size\<close> and \<^verbatim>\<open>as_position\<close> are not in this file:
  they are the parameters \<open>as_url\<close>, \<open>as_size\<close> and \<open>as_position\<close>, and each may raise.
  A size is an integer. What was printed before an error was raised stays printed, so
  the output comes beside the result and not inside it.
\<close>

type_synonym sheet_map = "(string \<times> spritesheet) list"

fun extra_properties :: "name_pair \<Rightarrow> props \<Rightarrow> message list" where
  "extra_properties name_pair [] = []"
| "extra_properties name_pair ((p, v) # rest) =
     (if p \<noteq> ''margin-left'' \<and> p \<noteq> ''margin-right''
      then [WarnExtraProperty name_pair p v] else []) @ extra_properties name_pair rest"

definition convert_emote :: "(string \<Rightarrow> error + int) \<Rightarrow> (string \<Rightarrow> int \<Rightarrow> int \<Rightarrow> error + int \<times> int) \<Rightarrow>
    name_pair \<Rightarrow> string \<Rightarrow> partial_emote \<Rightarrow> error + normal_emote \<times> message list" where
  "convert_emote as_size as_position name_pair url raw_emote =
     (let css0 = AList.delete ''float'' (AList.delete ''clear''
                   (AList.delete ''display'' (css raw_emote))) in
      (case map_of css0 ''width'' of
         None \<Rightarrow> Inl (KeyError ''width'')
       | Some w \<Rightarrow>
      (case as_size w of
         Inl e \<Rightarrow> Inl e
       | Inr width \<Rightarrow>
      (let css1 = AList.delete ''width'' css0 in
      (case map_of css1 ''height'' of
         None \<Rightarrow> Inl (KeyError ''height'')
       | Some h \<Rightarrow>
      (case as_size h of
         Inl e \<Rightarrow> Inl e
       | Inr height \<Rightarrow>
      (let css2 = AList.delete ''height'' css1 in
      (case (case map_of css2 ''background-position'' of
               None \<Rightarrow> Inr (None, css2)
             | Some p \<Rightarrow>
                 (case as_position p width height of
                    Inl e \<Rightarrow> Inl e
                  | Inr pos \<Rightarrow> Inr (Some pos, AList.delete ''background-position'' css2))) of
         Inl e \<Rightarrow> Inl e
       | Inr (off, css3) \<Rightarrow>
           (let css4 = AList.delete ''background-repeat'' css3 in
            Inr (\<lparr>normal_name = fst name_pair, normal_suffix = snd name_pair,
                   normal_css = css4, image_url = url,
                   emote_size = (width, height), offset = off\<rparr>,
                 extra_properties name_pair css4))))))))))"

text \<open>The first loop: every emote goes to the sheet of its image.\<close>

fun group_loop :: "(string \<Rightarrow> error + string) \<Rightarrow> (string \<Rightarrow> error + int) \<Rightarrow>
    (string \<Rightarrow> int \<Rightarrow> int \<Rightarrow> error + int \<times> int) \<Rightarrow> sheet_map \<Rightarrow> emote_map \<Rightarrow>
    message list \<times> (error + sheet_map)" where
  "group_loop as_url as_size as_position spritesheets [] = ([], Inr spritesheets)"
| "group_loop as_url as_size as_position spritesheets ((name_pair, raw_emote) # rest) =
     (case map_of (css raw_emote) ''background-image'' of
        None \<Rightarrow> ([], Inl (KeyError ''background-image''))
      | Some bg \<Rightarrow>
     (case as_url bg of
        Inl e \<Rightarrow> ([], Inl e)
      | Inr url \<Rightarrow>
     (let popped = raw_emote\<lparr>css := AList.delete ''background-image'' (css raw_emote)\<rparr>;
          sheets1 = (if map_of spritesheets url = None
                     then AList.update url \<lparr>sheet_url = url, sheet_emotes = []\<rparr> spritesheets
                     else spritesheets)
      in (case convert_emote as_size as_position name_pair url popped of
            Inl e \<Rightarrow> ([], Inl e)
          | Inr (emote, out) \<Rightarrow>
              (case group_loop as_url as_size as_position
                      (AList.map_entry url
                         (\<lambda>ss. ss\<lparr>sheet_emotes := AList.update name_pair emote (sheet_emotes ss)\<rparr>)
                         sheets1) rest of
                 (out', r) \<Rightarrow> (out @ out', r))))))"

text \<open>\<^verbatim>\<open>_verify_spritesheet\<close>: the loop gives the emotes and \<^verbatim>\<open>unpositioned_emotes\<close>.\<close>

fun verify_loop :: "(name_pair \<times> normal_emote) list \<Rightarrow>
    (name_pair \<times> normal_emote) list \<times> name_pair list" where
  "verify_loop [] = ([], [])"
| "verify_loop ((name_pair, emote) # rest) =
     (case verify_loop rest of (rest', unpositioned_emotes) \<Rightarrow>
        if offset emote = None
        then ((name_pair, emote\<lparr>offset := Some (0, 0)\<rparr>) # rest', name_pair # unpositioned_emotes)
        else ((name_pair, emote) # rest', unpositioned_emotes))"

definition verify_spritesheet :: "string \<Rightarrow> spritesheet \<Rightarrow> spritesheet \<times> message list" where
  "verify_spritesheet url ss =
     (case verify_loop (sheet_emotes ss) of (ems, unpositioned_emotes) \<Rightarrow>
        (ss\<lparr>sheet_emotes := ems\<rparr>,
         if length unpositioned_emotes > 1
         then [ErrorMultipleUnsized url unpositioned_emotes] else []))"

fun verify_all :: "sheet_map \<Rightarrow> sheet_map \<times> message list" where
  "verify_all [] = ([], [])"
| "verify_all ((url, ss) # rest) =
     (case verify_spritesheet url ss of (ss', out) \<Rightarrow>
        (case verify_all rest of (rest', out') \<Rightarrow> ((url, ss') # rest', out @ out')))"

definition build_spritesheet_map :: "(string \<Rightarrow> error + string) \<Rightarrow> (string \<Rightarrow> error + int) \<Rightarrow>
    (string \<Rightarrow> int \<Rightarrow> int \<Rightarrow> error + int \<times> int) \<Rightarrow> emote_map \<Rightarrow>
    message list \<times> (error + sheet_map)" where
  "build_spritesheet_map as_url as_size as_position emote_map =
     (case group_loop as_url as_size as_position [] emote_map of
        (out, Inl e) \<Rightarrow> (out, Inl e)
      | (out, Inr spritesheets) \<Rightarrow>
          (case verify_all spritesheets of (sheets', out') \<Rightarrow> (out @ out', Inr sheets')))"

text \<open>The emotes of a sheet that have no offset, in order.\<close>

definition unpositioned :: "spritesheet \<Rightarrow> name_pair list" where
  "unpositioned ss = map fst (filter (\<lambda>(k, e). offset e = None) (sheet_emotes ss))"

subsection \<open>The whole pipeline\<close>

text \<open>
  Modelled from the spec: the driver that calls the six functions one after the other is
  not in this file. Section 2 of the specification gives the order (filter, extract,
  build, collapse, classify, spritesheets), each stage taking the whole output of the one
  before; the result is the pair of the spritesheet map and the custom-emote map. The
  output is listed stage by stage.
\<close>

definition pipeline :: "(string \<Rightarrow> string option \<Rightarrow> string) \<Rightarrow> string set \<Rightarrow>
    (string \<Rightarrow> error + string) \<Rightarrow> (string \<Rightarrow> error + int) \<Rightarrow>
    (string \<Rightarrow> int \<Rightarrow> int \<Rightarrow> error + int \<times> int) \<Rightarrow> css_rule list \<Rightarrow>
    message list \<times> (error + sheet_map \<times> (name_pair \<times> custom_emote) list)" where
  "pipeline combine extract as_url as_size as_position css_rules =
     (case filter_ponyscript_ignores css_rules of (rules, out1) \<Rightarrow>
     (case extract_raw_emotes combine extract rules of (partial_emotes, out2) \<Rightarrow>
     (case build_emote_map partial_emotes of (emote_map, out3) \<Rightarrow>
     (case classify_emotes (collapse_specials_properties emote_map) of
        (normal_emotes, custom_emotes) \<Rightarrow>
     (case build_spritesheet_map as_url as_size as_position normal_emotes of (out4, r) \<Rightarrow>
        (out1 @ out2 @ out3 @ out4,
         case r of Inl e \<Rightarrow> Inl e | Inr sheets \<Rightarrow> Inr (sheets, custom_emotes)))))))"

text \<open>
  The rule of the end-to-end example, and css utilities that do on its values what the
  example assumes and raise on everything else.
\<close>

definition smile_rule :: css_rule where
  "smile_rule = \<lparr>selectors = [''a[href|=\"/smile\"]''],
     properties = [(''background-image'', ''url(s.png)''), (''width'', ''10px''),
                   (''height'', ''10px''), (''background-position'', ''0px 0px'')],
     ignore = False\<rparr>"

definition example_as_url :: "string \<Rightarrow> error + string" where
  "example_as_url raw = (if raw = ''url(s.png)'' then Inr ''s.png'' else Inl (ValueError raw))"

definition example_as_size :: "string \<Rightarrow> error + int" where
  "example_as_size raw = (if raw = ''10px'' then Inr 10 else Inl (ValueError raw))"

definition example_as_position :: "string \<Rightarrow> int \<Rightarrow> int \<Rightarrow> error + int \<times> int" where
  "example_as_position raw w h = (if raw = ''0px 0px'' then Inr (0, 0) else Inl (ValueError raw))"

definition example_combine :: "string \<Rightarrow> string option \<Rightarrow> string" where
  "example_combine nm sfx = nm @ (case sfx of None \<Rightarrow> [] | Some s \<Rightarrow> s)"

text \<open>An emote without a position on the sheet of the example, before and after conversion.\<close>

definition unplaced :: "string \<Rightarrow> partial_emote" where
  "unplaced n = \<lparr>name = n, suffix = None,
     css = [(''background-image'', ''url(s.png)''), (''width'', ''10px''), (''height'', ''10px'')]\<rparr>"

definition converted :: "string \<Rightarrow> (int \<times> int) option \<Rightarrow> normal_emote" where
  "converted n off = \<lparr>normal_name = n, normal_suffix = None, normal_css = [],
     image_url = ''s.png'', emote_size = (10, 10), offset = off\<rparr>"

section \<open>The selector classifier\<close>

subsection \<open>The matcher accepts exactly the language of the pattern\<close>

lemma strip_prefix_append: "strip_prefix p (p @ s) = Some s"
  by (induction p) auto

lemma strip_prefix_Some: "strip_prefix p s = Some r \<Longrightarrow> s = p @ r"
  by (induction p s rule: strip_prefix.induct) (auto split: if_splits)

lemma while_stop:
  "list_all P xs \<Longrightarrow> ys = [] \<or> \<not> P (hd ys) \<Longrightarrow>
   takeWhile P (xs @ ys) = xs \<and> dropWhile P (xs @ ys) = ys"
  by (induction xs) (cases ys; auto)+

lemma class_facts:
  "\<not> is_space CHR '':''" "\<not> is_space CHR ''[''"
  "\<not> is_pseudo_char CHR ''[''" "\<not> is_pseudo_char newline" "\<not> is_pseudo_char CHR '':''"
  "\<not> is_name_char (CHR 0x22)" "newline \<noteq> CHR '':''" "CHR ''='' \<noteq> newline"
  by (simp_all add: is_space_def is_pseudo_char_def is_name_char_def is_word_char_def
      in_range_def newline_def)

lemma opt_pseudo_token_fwd:
  assumes "opt_pseudo_token pc" "r = [] \<or> (\<not> is_pseudo_char (hd r) \<and> hd r \<noteq> CHR '':'')"
  shows "opt_pseudo (pc @ r) = (group_of pc, r)"
proof (cases pc)
  case Nil
  then show ?thesis using assms(2)
    by (cases r) (auto simp: opt_pseudo_def group_of_def)
next
  case (Cons c cs)
  with assms(1) have c: "c = CHR '':''" "cs \<noteq> []" "list_all is_pseudo_char cs"
    by (auto simp: opt_pseudo_token_def pseudo_token_def)
  from assms(2) have "r = [] \<or> \<not> is_pseudo_char (hd r)" by auto
  from while_stop [OF c(3) this] show ?thesis
    using Cons c by (simp add: opt_pseudo_def group_of_def)
qed

lemma opt_pseudo_bwd:
  assumes "opt_pseudo s = (g, r)"
  shows "\<exists>pc. opt_pseudo_token pc \<and> g = group_of pc \<and> s = pc @ r"
proof (cases "\<exists>cs. s = CHR '':'' # cs \<and> takeWhile is_pseudo_char cs \<noteq> []")
  case True
  then obtain cs where cs: "s = CHR '':'' # cs" "takeWhile is_pseudo_char cs \<noteq> []"
    by blast
  let ?pc = "CHR '':'' # takeWhile is_pseudo_char cs"
  from assms cs have gr: "g = Some ?pc" "r = dropWhile is_pseudo_char cs"
    by (simp_all add: opt_pseudo_def)
  have "list_all is_pseudo_char (takeWhile is_pseudo_char cs)"
    by (auto simp: list_all_iff dest: set_takeWhileD)
  with cs(2) have "opt_pseudo_token ?pc"
    by (simp add: opt_pseudo_token_def pseudo_token_def)
  moreover have "g = group_of ?pc" using gr(1) by (simp add: group_of_def)
  moreover have "s = ?pc @ r" using cs(1) gr(2) by simp
  ultimately show ?thesis by blast
next
  case False
  with assms have "g = None" "r = s"
    by (auto simp: opt_pseudo_def split: list.splits if_splits)
  then have "opt_pseudo_token [] \<and> g = group_of [] \<and> s = [] @ r"
    by (simp add: opt_pseudo_token_def group_of_def)
  then show ?thesis by blast
qed

lemma match_op_fwd:
  assumes "op_token op"
  shows "match_op (op @ ''=\"'' @ r) = Some r"
proof (cases op)
  case Nil
  then show ?thesis by (simp add: match_op_def class_facts)
next
  case (Cons c cs)
  with assms have "cs = []" "c \<noteq> newline"
    by (auto simp: op_token_def split: list.splits)
  with Cons show ?thesis by (simp add: match_op_def)
qed

lemma match_op_bwd:
  "match_op s = Some r \<Longrightarrow> \<exists>op. op_token op \<and> s = op @ ''=\"'' @ r"
proof (cases s)
  case Nil
  assume "match_op s = Some r"
  with Nil show ?thesis by (simp add: match_op_def)
next
  case (Cons c cs)
  assume m: "match_op s = Some r"
  show ?thesis
  proof (cases "c \<noteq> newline \<and> strip_prefix ''=\"'' cs \<noteq> None")
    case True
    with m Cons have "strip_prefix ''=\"'' cs = Some r" by (simp add: match_op_def)
    from strip_prefix_Some [OF this] have "s = [c] @ ''=\"'' @ r" using Cons by simp
    moreover have "op_token [c]" using True by (simp add: op_token_def)
    ultimately show ?thesis by blast
  next
    case False
    with m Cons have "strip_prefix ''=\"'' s = Some r"
      by (auto simp add: match_op_def simp del: strip_prefix.simps split: if_splits)
    from strip_prefix_Some [OF this] have "s = [] @ ''=\"'' @ r" by simp
    moreover have "op_token []" by (simp add: op_token_def)
    ultimately show ?thesis by blast
  qed
qed

lemma match_name_fwd:
  assumes "path_token p" "r = [] \<or> \<not> is_name_char (hd r)"
  shows "match_name (p @ r) = Some (p, r)"
proof (cases p)
  case Nil
  with assms show ?thesis by (simp add: path_token_def)
next
  case (Cons c cs)
  with assms(1) have c: "c = CHR ''/''" "cs \<noteq> []" "list_all is_name_char cs"
    by (auto simp: path_token_def)
  from while_stop [OF c(3) assms(2)] show ?thesis
    using Cons c by (simp add: match_name_def)
qed

lemma match_name_bwd:
  "match_name s = Some (p, r) \<Longrightarrow> path_token p \<and> s = p @ r"
  by (cases s) (auto simp: match_name_def path_token_def list_all_iff
      split: if_splits dest: set_takeWhileD)

lemma match_selector_prefix:
  assumes "list_all is_space ws" "opt_pseudo_token pc1" "op_token op" "path_token path"
  shows "match_selector (''a'' @ ws @ pc1 @ ''[href'' @ op @ ''=\"'' @ path @ ''\"]'' @ rest)
         = (case opt_pseudo rest of (pc2, r7) \<Rightarrow>
              if at_end r7 then Some (group_of pc1, path, pc2) else None)"
proof -
  let ?r5 = "''\"]'' @ rest"
  let ?r4 = "path @ ?r5"
  let ?r3 = "op @ ''=\"'' @ ?r4"
  let ?r2 = "''[href'' @ ?r3"
  let ?r1 = "pc1 @ ?r2"
  have s: "strip_prefix ''a'' (''a'' @ ws @ ?r1) = Some (ws @ ?r1)"
    by simp
  have "\<not> is_space (hd ?r1)"
    using assms(2)
    by (cases pc1) (auto simp: class_facts opt_pseudo_token_def pseudo_token_def)
  then have d: "dropWhile is_space (ws @ ?r1) = ?r1"
    using while_stop [OF assms(1), of ?r1] by blast
  have p1: "opt_pseudo ?r1 = (group_of pc1, ?r2)"
    by (rule opt_pseudo_token_fwd [OF assms(2)]) (simp add: class_facts)
  have h: "strip_prefix ''[href'' ?r2 = Some ?r3"
    by (rule strip_prefix_append)
  have o: "match_op ?r3 = Some ?r4"
    by (rule match_op_fwd [OF assms(3)])
  have n: "match_name ?r4 = Some (path, ?r5)"
    by (rule match_name_fwd [OF assms(4)]) (simp add: class_facts)
  have q: "strip_prefix ''\"]'' ?r5 = Some rest"
    by (rule strip_prefix_append)
  show ?thesis
    unfolding match_selector_def s option.case d p1 prod.case h o n q
    by simp
qed

lemma match_selector_fwd:
  assumes "list_all is_space ws" "opt_pseudo_token pc1" "op_token op" "path_token path"
    "opt_pseudo_token pc2" "at_end nl"
  shows "match_selector (selector_text ws pc1 op path pc2 nl)
         = Some (group_of pc1, path, group_of pc2)"
proof -
  have "opt_pseudo (pc2 @ nl) = (group_of pc2, nl)"
    by (rule opt_pseudo_token_fwd [OF assms(5)])
       (use assms(6) in \<open>auto simp: at_end_def class_facts\<close>)
  with match_selector_prefix [OF assms(1-4), of "pc2 @ nl"] assms(6)
  show ?thesis by (simp add: selector_text_def)
qed

lemma match_selector_bwd:
  assumes "match_selector s = Some (g1, nm, g2)"
  shows "\<exists>ws pc1 op pc2 nl. list_all is_space ws \<and> opt_pseudo_token pc1 \<and> op_token op
           \<and> path_token nm \<and> opt_pseudo_token pc2 \<and> at_end nl
           \<and> g1 = group_of pc1 \<and> g2 = group_of pc2
           \<and> s = selector_text ws pc1 op nm pc2 nl"
proof -
  from assms obtain r0 r2 r3 r4 r5 r6 r7 where
    a: "strip_prefix ''a'' s = Some r0" and
    p1: "opt_pseudo (dropWhile is_space r0) = (g1, r2)" and
    h: "strip_prefix ''[href'' r2 = Some r3" and
    o: "match_op r3 = Some r4" and
    n: "match_name r4 = Some (nm, r5)" and
    q: "strip_prefix ''\"]'' r5 = Some r6" and
    p2: "opt_pseudo r6 = (g2, r7)" and
    e: "at_end r7"
    by (auto simp: match_selector_def split: option.splits prod.splits if_splits)
  from opt_pseudo_bwd [OF p1] obtain pc1 where
    pc1: "opt_pseudo_token pc1" "g1 = group_of pc1" "dropWhile is_space r0 = pc1 @ r2" by blast
  from opt_pseudo_bwd [OF p2] obtain pc2 where
    pc2: "opt_pseudo_token pc2" "g2 = group_of pc2" "r6 = pc2 @ r7" by blast
  from match_op_bwd [OF o] obtain op where
    op: "op_token op" "r3 = op @ ''=\"'' @ r4" by blast
  from match_name_bwd [OF n] have nm: "path_token nm" "r4 = nm @ r5" by auto
  have "s = ''a'' @ r0" by (rule strip_prefix_Some [OF a])
  also have "r0 = takeWhile is_space r0 @ dropWhile is_space r0" by simp
  also have "dropWhile is_space r0 = pc1 @ r2" by (rule pc1(3))
  also have "r2 = ''[href'' @ r3" by (rule strip_prefix_Some [OF h])
  also have "r3 = op @ ''=\"'' @ r4" by (rule op(2))
  also have "r4 = nm @ r5" by (rule nm(2))
  also have "r5 = ''\"]'' @ r6" by (rule strip_prefix_Some [OF q])
  also have "r6 = pc2 @ r7" by (rule pc2(3))
  finally have "s = selector_text (takeWhile is_space r0) pc1 op nm pc2 r7"
    by (simp add: selector_text_def)
  moreover have "list_all is_space (takeWhile is_space r0)"
    by (auto simp: list_all_iff dest: set_takeWhileD)
  ultimately show ?thesis using pc1 pc2 op nm e by blast
qed

lemma parse_of_groups:
  assumes "match_selector sel = Some (group_of pc1, path, group_of pc2)"
  shows "parse_emote_selector sel =
    (let pc = (if pc1 \<noteq> [] then pc1 else pc2) in
      (Some (path, if pc = [] \<or> pc = '':nth-of-type(n)'' then None else Some pc),
       (if pc1 \<noteq> [] \<and> pc2 \<noteq> [] then [WarnMultiplePseudo sel] else []) @
       (if pc \<in> {[], '':hover'', '':active'', '':nth-of-type(n)''} then []
        else [WarnUnknownPseudo sel])))"
  unfolding parse_emote_selector_def assms option.case prod.case
  by (cases "pc1 = []"; cases "pc2 = []") (simp_all add: group_of_def Let_def)

lemma digit_facts:
  "is_digit c \<Longrightarrow> \<not> is_pseudo_char c" "is_digit c \<Longrightarrow> c \<noteq> CHR '':''"
  "is_digit c \<Longrightarrow> c \<noteq> CHR ''[''" "is_digit c \<Longrightarrow> c \<noteq> newline"
  by (auto simp: is_digit_def is_pseudo_char_def in_range_def newline_def)

lemma nth_token: "opt_pseudo_token '':nth-of-type(''"
  by (simp add: opt_pseudo_token_def pseudo_token_def is_pseudo_char_def in_range_def)

lemma indexed_trailing:
  assumes "list_all is_space ws" "opt_pseudo_token pc1" "op_token op" "path_token path"
    "ds \<noteq> []" "list_all is_digit ds"
  shows "match_selector
           (''a'' @ ws @ pc1 @ ''[href'' @ op @ ''=\"'' @ path @ ''\"]'' @ '':nth-of-type('' @ ds @ rest)
         = None"
proof -
  from assms(5,6) have d: "is_digit (hd ds)" by (cases ds) auto
  have "opt_pseudo ('':nth-of-type('' @ (ds @ rest)) = (group_of '':nth-of-type('', ds @ rest)"
    by (rule opt_pseudo_token_fwd [OF nth_token]) (use assms(5) d in \<open>simp add: digit_facts\<close>)
  moreover have "\<not> at_end (ds @ rest)"
    using assms(5) d by (cases ds) (auto simp: at_end_def digit_facts)
  ultimately show ?thesis
    using match_selector_prefix [OF assms(1-4), of "'':nth-of-type('' @ ds @ rest"]
    by simp
qed

lemma indexed_leading:
  assumes "list_all is_space ws" "ds \<noteq> []" "list_all is_digit ds"
  shows "match_selector (''a'' @ ws @ '':nth-of-type('' @ ds @ rest) = None"
proof -
  let ?r1 = "'':nth-of-type('' @ (ds @ rest)"
  from assms(2,3) have d: "is_digit (hd ds)" by (cases ds) auto
  have s: "strip_prefix ''a'' (''a'' @ ws @ ?r1) = Some (ws @ ?r1)"
    by simp
  have "\<not> is_space (hd ?r1)" by (simp add: class_facts)
  then have w: "dropWhile is_space (ws @ ?r1) = ?r1"
    using while_stop [OF assms(1), of ?r1] by blast
  have p: "opt_pseudo ?r1 = (group_of '':nth-of-type('', ds @ rest)"
    by (rule opt_pseudo_token_fwd [OF nth_token]) (use assms(2) d in \<open>simp add: digit_facts\<close>)
  have h: "strip_prefix ''[href'' (ds @ rest) = None"
    using assms(2) d by (cases ds) (auto simp: digit_facts)
  have "match_selector (''a'' @ ws @ ?r1) = None"
    unfolding match_selector_def s option.case w p prod.case h by simp
  then show ?thesis by simp
qed

text \<open>
  Claim C1, as amended. A selector made of the pieces of the pattern (the \<^verbatim>\<open>a\<close>, any
  white space, a leading pseudo-class or none, \<^verbatim>\<open>[href\<close>, one character other than a
  line feed or none, \<^verbatim>\<open>="\<close>, the path with its slash, \<^verbatim>\<open>"]\<close>, a trailing pseudo-class
  or none, a final line feed or none) is classified as the pair of the path, slash
  included, and the suffix. The suffix comes from the leading pseudo-class if there is
  one and from the trailing one otherwise: \<^verbatim>\<open>:hover\<close> and \<^verbatim>\<open>:active\<close> are kept,
  \<^verbatim>\<open>:nth-of-type(n)\<close> and no pseudo-class give no suffix, any other pseudo-class is kept
  and the unknown-pseudo-class warning is printed. When both pseudo-classes are there
  the multiple-pseudo-classes warning is printed first. A string that cannot be cut into
  such pieces is classified as no emote, and nothing is printed.
\<close>

theorem parse_emote_selector_grammar:
  "(list_all is_space ws \<and> opt_pseudo_token pc1 \<and> op_token op \<and> path_token path
      \<and> opt_pseudo_token pc2 \<and> at_end nl \<longrightarrow>
     (let sel = selector_text ws pc1 op path pc2 nl;
          pc = (if pc1 \<noteq> [] then pc1 else pc2)
      in parse_emote_selector sel =
        (Some (path, if pc = [] \<or> pc = '':nth-of-type(n)'' then None else Some pc),
         (if pc1 \<noteq> [] \<and> pc2 \<noteq> [] then [WarnMultiplePseudo sel] else []) @
         (if pc \<in> {[], '':hover'', '':active'', '':nth-of-type(n)''} then []
          else [WarnUnknownPseudo sel]))))
   \<and> ((\<forall>ws pc1 op path pc2 nl.
          list_all is_space ws \<and> opt_pseudo_token pc1 \<and> op_token op \<and> path_token path
          \<and> opt_pseudo_token pc2 \<and> at_end nl
          \<longrightarrow> s \<noteq> selector_text ws pc1 op path pc2 nl)
        \<longrightarrow> parse_emote_selector s = (None, []))"
proof (intro conjI impI)
  assume t: "list_all is_space ws \<and> opt_pseudo_token pc1 \<and> op_token op \<and> path_token path
      \<and> opt_pseudo_token pc2 \<and> at_end nl"
  then have "match_selector (selector_text ws pc1 op path pc2 nl)
             = Some (group_of pc1, path, group_of pc2)"
    by (intro match_selector_fwd) simp_all
  from parse_of_groups [OF this] show "let sel = selector_text ws pc1 op path pc2 nl;
          pc = (if pc1 \<noteq> [] then pc1 else pc2)
      in parse_emote_selector sel =
        (Some (path, if pc = [] \<or> pc = '':nth-of-type(n)'' then None else Some pc),
         (if pc1 \<noteq> [] \<and> pc2 \<noteq> [] then [WarnMultiplePseudo sel] else []) @
         (if pc \<in> {[], '':hover'', '':active'', '':nth-of-type(n)''} then []
          else [WarnUnknownPseudo sel]))"
    by (simp add: Let_def)
next
  assume n: "\<forall>ws pc1 op path pc2 nl.
          list_all is_space ws \<and> opt_pseudo_token pc1 \<and> op_token op \<and> path_token path
          \<and> opt_pseudo_token pc2 \<and> at_end nl
          \<longrightarrow> s \<noteq> selector_text ws pc1 op path pc2 nl"
  have "match_selector s = None"
  proof (cases "match_selector s")
    case None
    then show ?thesis .
  next
    case (Some g)
    obtain g1 nm g2 where "g = (g1, nm, g2)" by (cases g) auto
    with Some match_selector_bwd [of s g1 nm g2] n show ?thesis by blast
  qed
  then show "parse_emote_selector s = (None, [])"
    by (simp add: parse_emote_selector_def)
qed

theorem parse_emote_selector_grammar_witness:
  "parse_emote_selector ''a:hover[href|=\"/smile\"]'' = (Some (''/smile'', Some '':hover''), [])
   \<and> parse_emote_selector ''.foo'' = (None, [])"
proof -
  have t: "list_all is_space [] \<and> opt_pseudo_token '':hover'' \<and> op_token ''|''
      \<and> path_token ''/smile'' \<and> opt_pseudo_token [] \<and> at_end []"
    by code_simp
  have n: "\<forall>ws pc1 op path pc2 nl.
          list_all is_space ws \<and> opt_pseudo_token pc1 \<and> op_token op \<and> path_token path
          \<and> opt_pseudo_token pc2 \<and> at_end nl
          \<longrightarrow> ''.foo'' \<noteq> selector_text ws pc1 op path pc2 nl"
    by (simp add: selector_text_def)
  from parse_emote_selector_grammar [of "[]" "'':hover''" "''|''" "''/smile''" "[]" "[]" "''.foo''"]
    t n show ?thesis
    by (simp add: selector_text_def Let_def)
qed

text \<open>
  Claim C1 as stated fails in its last part: these two selectors are outside the grammar of
  the claim (two pseudo-classes; white space after the \<^verbatim>\<open>a\<close>) and are classified as
  emotes all the same.
\<close>

theorem parse_emote_selector_outside_grammar:
  "\<not> claimed_grammar ''a:hover[href|=\"/x\"]:active''
   \<and> parse_emote_selector ''a:hover[href|=\"/x\"]:active''
       = (Some (''/x'', Some '':hover''), [WarnMultiplePseudo ''a:hover[href|=\"/x\"]:active''])
   \<and> \<not> claimed_grammar ''a [href|=\"/x\"]''
   \<and> parse_emote_selector ''a [href|=\"/x\"]'' = (Some (''/x'', None), [])"
proof (intro conjI)
  show "\<not> claimed_grammar ''a:hover[href|=\"/x\"]:active''"
  proof
    assume "claimed_grammar ''a:hover[href|=\"/x\"]:active''"
    then obtain pc op path where
      "''a:hover[href|=\"/x\"]:active'' = selector_text [] pc op path [] []
       \<or> ''a:hover[href|=\"/x\"]:active'' = selector_text [] [] op path pc []"
      unfolding claimed_grammar_def by blast
    then show False
    proof
      assume "''a:hover[href|=\"/x\"]:active'' = selector_text [] pc op path [] []"
      then have "last ''a:hover[href|=\"/x\"]:active'' = last (selector_text [] pc op path [] [])"
        by (rule arg_cong)
      then show False by (simp add: selector_text_def)
    next
      assume "''a:hover[href|=\"/x\"]:active'' = selector_text [] [] op path pc []"
      then show False by (simp add: selector_text_def)
    qed
  qed
  show "\<not> claimed_grammar ''a [href|=\"/x\"]''"
  proof
    assume "claimed_grammar ''a [href|=\"/x\"]''"
    then obtain pc op path where p: "opt_pseudo_token pc" and
      "''a [href|=\"/x\"]'' = selector_text [] pc op path [] []
       \<or> ''a [href|=\"/x\"]'' = selector_text [] [] op path pc []"
      unfolding claimed_grammar_def by blast
    then show False
      by (cases pc) (auto simp: selector_text_def opt_pseudo_token_def pseudo_token_def)
  qed
qed code_simp+

text \<open>
  Claim C10, as amended. The pseudo-class that counts is the leading one if there is one
  and the trailing one otherwise; when both are there the multiple-pseudo-classes
  warning is printed. When the pseudo-class that counts is the literal
  \<^verbatim>\<open>:nth-of-type(n)\<close> it is dropped and no unknown-pseudo-class warning is printed (so
  nothing at all is printed when it is the only pseudo-class). When it is any other
  pseudo-class of the pattern (a colon and then letters, hyphens and parentheses) except
  \<^verbatim>\<open>:hover\<close> and \<^verbatim>\<open>:active\<close>, it is kept as the suffix and the unknown-pseudo-class
  warning is printed. A pseudo-class with a decimal index, like \<^verbatim>\<open>:nth-of-type(2)\<close>, in
  either place, is not a pseudo-class of the pattern, since a digit is not in its
  character class: the selector is no emote, nothing is kept and nothing is printed.
\<close>

theorem nth_of_type_literal_only:
  "list_all is_space ws \<and> opt_pseudo_token pc1 \<and> op_token op \<and> path_token path
      \<and> opt_pseudo_token pc2 \<and> at_end nl \<longrightarrow>
     (let sel = selector_text ws pc1 op path pc2 nl;
          pc = (if pc1 \<noteq> [] then pc1 else pc2);
          multiple = (if pc1 \<noteq> [] \<and> pc2 \<noteq> [] then [WarnMultiplePseudo sel] else [])
      in (pc = '':nth-of-type(n)'' \<longrightarrow> parse_emote_selector sel = (Some (path, None), multiple))
       \<and> (pc \<notin> {[], '':hover'', '':active'', '':nth-of-type(n)''} \<longrightarrow>
            parse_emote_selector sel = (Some (path, Some pc), multiple @ [WarnUnknownPseudo sel])))
   \<and> (ds \<noteq> [] \<and> list_all is_digit ds \<longrightarrow>
        parse_emote_selector (selector_text ws ('':nth-of-type('' @ ds @ '')'') op path pc2 nl)
          = (None, [])
      \<and> parse_emote_selector (selector_text ws pc1 op path ('':nth-of-type('' @ ds @ '')'') nl)
          = (None, []))"
proof (intro impI)
  assume t: "list_all is_space ws \<and> opt_pseudo_token pc1 \<and> op_token op \<and> path_token path
      \<and> opt_pseudo_token pc2 \<and> at_end nl"
  then have "match_selector (selector_text ws pc1 op path pc2 nl)
             = Some (group_of pc1, path, group_of pc2)"
    by (intro match_selector_fwd) simp_all
  from parse_of_groups [OF this]
  have accepted: "let sel = selector_text ws pc1 op path pc2 nl;
          pc = (if pc1 \<noteq> [] then pc1 else pc2);
          multiple = (if pc1 \<noteq> [] \<and> pc2 \<noteq> [] then [WarnMultiplePseudo sel] else [])
      in (pc = '':nth-of-type(n)'' \<longrightarrow> parse_emote_selector sel = (Some (path, None), multiple))
       \<and> (pc \<notin> {[], '':hover'', '':active'', '':nth-of-type(n)''} \<longrightarrow>
            parse_emote_selector sel = (Some (path, Some pc), multiple @ [WarnUnknownPseudo sel]))"
    by (simp add: Let_def)
  have indexed: "parse_emote_selector
          (selector_text ws ('':nth-of-type('' @ ds @ '')'') op path pc2 nl) = (None, [])
      \<and> parse_emote_selector
          (selector_text ws pc1 op path ('':nth-of-type('' @ ds @ '')'') nl) = (None, [])"
    if d: "ds \<noteq> [] \<and> list_all is_digit ds"
  proof -
    have "match_selector (''a'' @ ws @ '':nth-of-type('' @ ds @
            ('')'' @ ''[href'' @ op @ ''=\"'' @ path @ ''\"]'' @ pc2 @ nl)) = None"
      using indexed_leading [of ws ds] t d by blast
    then have 1: "match_selector
        (selector_text ws ('':nth-of-type('' @ ds @ '')'') op path pc2 nl) = None"
      by (simp add: selector_text_def)
    have "match_selector (''a'' @ ws @ pc1 @ ''[href'' @ op @ ''=\"'' @ path @ ''\"]''
            @ '':nth-of-type('' @ ds @ ('')'' @ nl)) = None"
      using indexed_trailing [of ws pc1 op path ds] t d by blast
    then have 2: "match_selector
        (selector_text ws pc1 op path ('':nth-of-type('' @ ds @ '')'') nl) = None"
      by (simp add: selector_text_def)
    from 1 2 show ?thesis by (simp add: parse_emote_selector_def)
  qed
  from accepted indexed
  show "(let sel = selector_text ws pc1 op path pc2 nl;
          pc = (if pc1 \<noteq> [] then pc1 else pc2);
          multiple = (if pc1 \<noteq> [] \<and> pc2 \<noteq> [] then [WarnMultiplePseudo sel] else [])
      in (pc = '':nth-of-type(n)'' \<longrightarrow> parse_emote_selector sel = (Some (path, None), multiple))
       \<and> (pc \<notin> {[], '':hover'', '':active'', '':nth-of-type(n)''} \<longrightarrow>
            parse_emote_selector sel = (Some (path, Some pc), multiple @ [WarnUnknownPseudo sel])))
   \<and> (ds \<noteq> [] \<and> list_all is_digit ds \<longrightarrow>
        parse_emote_selector (selector_text ws ('':nth-of-type('' @ ds @ '')'') op path pc2 nl)
          = (None, [])
      \<and> parse_emote_selector (selector_text ws pc1 op path ('':nth-of-type('' @ ds @ '')'') nl)
          = (None, []))"
    by blast
qed

theorem nth_of_type_literal_only_witness:
  "parse_emote_selector ''a[href|=\"/x\"]:nth-of-type(n)'' = (Some (''/x'', None), [])
   \<and> parse_emote_selector ''a:nth-of-type(n)[href|=\"/x\"]:before''
       = (Some (''/x'', None), [WarnMultiplePseudo ''a:nth-of-type(n)[href|=\"/x\"]:before''])
   \<and> parse_emote_selector ''a[href|=\"/x\"]:nth-of-type(m)''
       = (Some (''/x'', Some '':nth-of-type(m)''),
          [WarnUnknownPseudo ''a[href|=\"/x\"]:nth-of-type(m)''])
   \<and> parse_emote_selector ''a:nth-of-type(12)[href|=\"/x\"]'' = (None, [])"
proof -
  have t1: "list_all is_space [] \<and> opt_pseudo_token [] \<and> op_token ''|'' \<and> path_token ''/x''
      \<and> opt_pseudo_token '':nth-of-type(n)'' \<and> at_end []"
    by code_simp
  have t2: "list_all is_space [] \<and> opt_pseudo_token '':nth-of-type(n)'' \<and> op_token ''|''
      \<and> path_token ''/x'' \<and> opt_pseudo_token '':before'' \<and> at_end []"
    by code_simp
  have t3: "list_all is_space [] \<and> opt_pseudo_token [] \<and> op_token ''|'' \<and> path_token ''/x''
      \<and> opt_pseudo_token '':nth-of-type(m)'' \<and> at_end []"
    by code_simp
  have t4: "list_all is_space [] \<and> opt_pseudo_token [] \<and> op_token ''|'' \<and> path_token ''/x''
      \<and> opt_pseudo_token [] \<and> at_end []"
    by code_simp
  have d: "''12'' \<noteq> [] \<and> list_all is_digit ''12''"
    by code_simp
  from nth_of_type_literal_only [of "[]" "[]" "''|''" "''/x''" "'':nth-of-type(n)''" "[]"] t1
  have 1: "parse_emote_selector ''a[href|=\"/x\"]:nth-of-type(n)'' = (Some (''/x'', None), [])"
    by (simp add: selector_text_def Let_def)
  from nth_of_type_literal_only
    [of "[]" "'':nth-of-type(n)''" "''|''" "''/x''" "'':before''" "[]"] t2
  have 2: "parse_emote_selector ''a:nth-of-type(n)[href|=\"/x\"]:before''
       = (Some (''/x'', None), [WarnMultiplePseudo ''a:nth-of-type(n)[href|=\"/x\"]:before''])"
    by (simp add: selector_text_def Let_def)
  from nth_of_type_literal_only [of "[]" "[]" "''|''" "''/x''" "'':nth-of-type(m)''" "[]"] t3
  have 3: "parse_emote_selector ''a[href|=\"/x\"]:nth-of-type(m)''
       = (Some (''/x'', Some '':nth-of-type(m)''),
          [WarnUnknownPseudo ''a[href|=\"/x\"]:nth-of-type(m)''])"
    by (simp add: selector_text_def Let_def)
  from nth_of_type_literal_only [of "[]" "[]" "''|''" "''/x''" "[]" "[]" "''12''"] t4 d
  have 4: "parse_emote_selector ''a:nth-of-type(12)[href|=\"/x\"]'' = (None, [])"
    by (simp add: selector_text_def Let_def)
  from 1 2 3 4 show ?thesis by blast
qed

text \<open>
  Claim C10 as stated fails: with a concrete index the selector is rejected, so no warning
  is printed and no suffix is kept.
\<close>

theorem nth_of_type_index_rejected:
  "parse_emote_selector ''a[href|=\"/x\"]:nth-of-type(2)'' = (None, [])
   \<and> parse_emote_selector ''a[href|=\"/x\"]:nth-of-type(2)''
       \<noteq> (Some (''/x'', Some '':nth-of-type(2)''),
            [WarnUnknownPseudo ''a[href|=\"/x\"]:nth-of-type(2)''])"
  by code_simp

section \<open>The ignore-region filter\<close>

lemma split_detect_eq:
  "split_detect A R sels = (A \<union> set sels, map WarnSplit (filter (\<lambda>x. x \<in> R) sels))"
  by (induction sels arbitrary: A) auto

lemma filter_step_eq:
  "filter_step (v, h, ig0) r =
     (let ig = (ig0 \<or> START \<in> set (selectors r)) in
       ((if ig then v else v \<union> set (selectors r),
         if ig then h \<union> set (selectors r) else h,
         ig \<and> END \<notin> set (selectors r)),
        r\<lparr>ignore := ig\<rparr>,
        map WarnSplit (filter (\<lambda>x. x \<in> (if ig then v else h)) (selectors r))))"
  by (auto simp: filter_step_def split_detect_eq Let_def)

lemma filter_loop_append:
  "filter_loop st (xs @ ys) =
     (case filter_loop st xs of (st1, xs', o1) \<Rightarrow>
        (case filter_loop st1 ys of (st2, ys', o2) \<Rightarrow> (st2, xs' @ ys', o1 @ o2)))"
  by (induction xs arbitrary: st) (auto split: prod.splits)

lemma filter_loop_no_start:
  assumes "\<forall>r\<in>set xs. START \<notin> set (selectors r)"
  shows "\<exists>v' h' out. filter_loop (v, h, False) xs
           = ((v', h', False), map (\<lambda>r. r\<lparr>ignore := False\<rparr>) xs, out)"
  using assms
proof (induction xs arbitrary: v h)
  case Nil
  then show ?case by simp
next
  case (Cons r xs)
  from Cons.prems have n: "START \<notin> set (selectors r)" and
    r: "\<forall>r\<in>set xs. START \<notin> set (selectors r)" by auto
  from Cons.IH [OF r, of "v \<union> set (selectors r)" h] n show ?case
    by (auto simp: filter_step_eq)
qed

lemma filter_loop_no_end:
  assumes "\<forall>r\<in>set xs. END \<notin> set (selectors r)"
  shows "\<exists>v' h' out. filter_loop (v, h, True) xs
           = ((v', h', True), map (\<lambda>r. r\<lparr>ignore := True\<rparr>) xs, out)"
  using assms
proof (induction xs arbitrary: v h)
  case Nil
  then show ?case by simp
next
  case (Cons r xs)
  from Cons.prems have n: "END \<notin> set (selectors r)" and
    r: "\<forall>r\<in>set xs. END \<notin> set (selectors r)" by auto
  from Cons.IH [OF r, of v "h \<union> set (selectors r)"] n show ?case
    by (auto simp: filter_step_eq)
qed

lemma filter_loop_length:
  "filter_loop st xs = (st', xs', out) \<Longrightarrow> length xs' = length xs"
  by (induction xs arbitrary: st st' xs' out) (auto split: prod.splits)

text \<open>
  One region, from any state: a start marker, rules without an end marker, an end
  marker, then rules without a start marker.
\<close>

lemma filter_loop_region:
  assumes "START \<in> set (selectors s)" "END \<notin> set (selectors s)"
    "\<forall>r\<in>set mid. END \<notin> set (selectors r)" "END \<in> set (selectors e)"
    "\<forall>r\<in>set post. START \<notin> set (selectors r)"
  shows "\<exists>st' out. filter_loop (v, h, ig) ([s] @ mid @ [e] @ post)
           = (st', [s\<lparr>ignore := True\<rparr>] @ map (\<lambda>r. r\<lparr>ignore := True\<rparr>) mid
                   @ [e\<lparr>ignore := True\<rparr>] @ map (\<lambda>r. r\<lparr>ignore := False\<rparr>) post, out)"
proof -
  obtain v1 h1 o1 where 1: "filter_step (v, h, ig) s = ((v1, h1, True), s\<lparr>ignore := True\<rparr>, o1)"
    using assms(1,2) by (simp add: filter_step_eq)
  obtain v2 h2 o2 where 2: "filter_loop (v1, h1, True) mid
      = ((v2, h2, True), map (\<lambda>r. r\<lparr>ignore := True\<rparr>) mid, o2)"
    using filter_loop_no_end [OF assms(3)] by blast
  obtain v3 h3 o3 where 3: "filter_step (v2, h2, True) e = ((v3, h3, False), e\<lparr>ignore := True\<rparr>, o3)"
    using assms(4) by (simp add: filter_step_eq)
  obtain v4 h4 o4 where 4: "filter_loop (v3, h3, False) post
      = ((v4, h4, False), map (\<lambda>r. r\<lparr>ignore := False\<rparr>) post, o4)"
    using filter_loop_no_start [OF assms(5)] by blast
  have "filter_loop (v2, h2, True) ([e] @ post)
      = ((v4, h4, False), [e\<lparr>ignore := True\<rparr>] @ map (\<lambda>r. r\<lparr>ignore := False\<rparr>) post, o3 @ o4)"
    using 3 4 by simp
  then have "filter_loop (v1, h1, True) (mid @ [e] @ post)
      = ((v4, h4, False), map (\<lambda>r. r\<lparr>ignore := True\<rparr>) mid @ [e\<lparr>ignore := True\<rparr>]
           @ map (\<lambda>r. r\<lparr>ignore := False\<rparr>) post, o2 @ o3 @ o4)"
    using 2 by (simp only: filter_loop_append [of _ mid] prod.case)
  then have "filter_loop (v, h, ig) ([s] @ mid @ [e] @ post)
      = ((v4, h4, False), [s\<lparr>ignore := True\<rparr>] @ map (\<lambda>r. r\<lparr>ignore := True\<rparr>) mid
           @ [e\<lparr>ignore := True\<rparr>] @ map (\<lambda>r. r\<lparr>ignore := False\<rparr>) post, o1 @ o2 @ o3 @ o4)"
    using 1 by simp
  then show ?thesis by blast
qed









lemma marker_facts: "END \<notin> set [''.foo'']"
  by (simp add: END_def)


text \<open>
  Claim C2, as amended. In a sequence made of preceding rules without a start marker, a
  rule with \<^verbatim>\<open>START-PONYSCRIPT-IGNORE\<close> (and without the end marker) among its
  selectors, a rule with the selector \<^verbatim>\<open>.foo\<close>, a rule with
  \<^verbatim>\<open>END-PONYSCRIPT-IGNORE\<close> among its selectors, and following rules without a start
  marker, the \<^verbatim>\<open>.foo\<close> rule and both marker rules get \<^verbatim>\<open>ignore = True\<close>, and every rule
  before the start marker and after the end marker gets \<^verbatim>\<open>ignore = False\<close>.
\<close>

theorem ignore_region_flags:
  assumes "\<forall>r\<in>set pre. START \<notin> set (selectors r)"
    and "START \<in> set (selectors s)" and "END \<notin> set (selectors s)"
    and "selectors foo = [''.foo'']"
    and "END \<in> set (selectors e)"
    and "\<forall>r\<in>set post. START \<notin> set (selectors r)"
  shows "map ignore (fst (filter_ponyscript_ignores (pre @ [s, foo, e] @ post)))
         = replicate (length pre) False @ [True, True, True] @ replicate (length post) False"
proof -
  obtain v1 h1 o1 where 1: "filter_loop ({}, {}, False) pre
      = ((v1, h1, False), map (\<lambda>r. r\<lparr>ignore := False\<rparr>) pre, o1)"
    using filter_loop_no_start [OF assms(1)] by blast
  have "\<forall>r\<in>set [foo]. END \<notin> set (selectors r)"
    using assms(4) marker_facts by simp
  from filter_loop_region [OF assms(2,3) this assms(5,6)]
  obtain st2 o2 where 2: "filter_loop (v1, h1, False) ([s] @ [foo] @ [e] @ post)
      = (st2, [s\<lparr>ignore := True\<rparr>] @ map (\<lambda>r. r\<lparr>ignore := True\<rparr>) [foo]
           @ [e\<lparr>ignore := True\<rparr>] @ map (\<lambda>r. r\<lparr>ignore := False\<rparr>) post, o2)"
    by blast
  have "filter_loop ({}, {}, False) (pre @ ([s] @ [foo] @ [e] @ post))
      = (st2, map (\<lambda>r. r\<lparr>ignore := False\<rparr>) pre @ [s\<lparr>ignore := True\<rparr>]
           @ map (\<lambda>r. r\<lparr>ignore := True\<rparr>) [foo]
           @ [e\<lparr>ignore := True\<rparr>] @ map (\<lambda>r. r\<lparr>ignore := False\<rparr>) post, o1 @ o2)"
    using 1 2 by (simp only: filter_loop_append [of _ pre] prod.case)
  then show ?thesis
    by (simp add: filter_ponyscript_ignores_def comp_def map_replicate_const)
qed

theorem ignore_region_flags_witness:
  "map ignore (fst (filter_ponyscript_ignores
     ([\<lparr>selectors = [''.pre''], properties = [], ignore = False\<rparr>]
      @ [\<lparr>selectors = [START], properties = [], ignore = False\<rparr>,
         \<lparr>selectors = [''.foo''], properties = [], ignore = False\<rparr>,
         \<lparr>selectors = [END], properties = [], ignore = False\<rparr>]
      @ [\<lparr>selectors = [''.post''], properties = [], ignore = True\<rparr>])))
   = [False, True, True, True, False]"
proof -
  let ?pre = "[\<lparr>selectors = [''.pre''], properties = [], ignore = False\<rparr>]"
  let ?post = "[\<lparr>selectors = [''.post''], properties = [], ignore = True\<rparr>]"
  have 1: "\<forall>r\<in>set ?pre. START \<notin> set (selectors r)" by (simp add: START_def)
  have 2: "\<forall>r\<in>set ?post. START \<notin> set (selectors r)" by (simp add: START_def)
  have 3: "END \<notin> set (selectors \<lparr>selectors = [START], properties = [], ignore = False\<rparr>)"
    by (simp add: START_def END_def)
  from ignore_region_flags [OF 1 _ 3 _ _ 2,
      of "\<lparr>selectors = [''.foo''], properties = [], ignore = False\<rparr>"
         "\<lparr>selectors = [END], properties = [], ignore = False\<rparr>"]
  show ?thesis by simp
qed

text \<open>
  Claim C2 as stated fails: it is not only the \<^verbatim>\<open>.foo\<close> rule that is ignored, the two
  marker rules are ignored too.
\<close>

theorem ignore_region_markers_flagged:
  "map ignore (fst (filter_ponyscript_ignores
     [\<lparr>selectors = [START], properties = [], ignore = False\<rparr>,
      \<lparr>selectors = [''.foo''], properties = [], ignore = False\<rparr>,
      \<lparr>selectors = [END], properties = [], ignore = False\<rparr>]))
   = [True, True, True]"
  by code_simp

lemma marker_rules_shape:
  assumes "START \<in> set (selectors s)" and "END \<notin> set (selectors s)"
    and "\<forall>r\<in>set mid. END \<notin> set (selectors r)"
    and "END \<in> set (selectors e)"
    and "\<forall>r\<in>set post1. START \<notin> set (selectors r)"
  shows "\<exists>fpre fpost. length fpre = length pre \<and>
     map ignore (fst (filter_ponyscript_ignores (pre @ [s] @ mid @ [e] @ post1 @ post2)))
       = fpre @ (True # replicate (length mid) True @ True # replicate (length post1) False)
           @ fpost"
proof -
  obtain st1 pre' o1 where 1: "filter_loop ({}, {}, False) pre = (st1, pre', o1)"
    by (metis prod_cases3)
  obtain v1 h1 ig1 where st1: "st1 = (v1, h1, ig1)" by (metis prod_cases3)
  from filter_loop_region [OF assms, of v1 h1 ig1]
  obtain st2 o2 where 2: "filter_loop st1 ([s] @ mid @ [e] @ post1)
      = (st2, [s\<lparr>ignore := True\<rparr>] @ map (\<lambda>r. r\<lparr>ignore := True\<rparr>) mid
           @ [e\<lparr>ignore := True\<rparr>] @ map (\<lambda>r. r\<lparr>ignore := False\<rparr>) post1, o2)"
    unfolding st1 by blast
  obtain st3 post' o3 where 3: "filter_loop st2 post2 = (st3, post', o3)"
    by (metis prod_cases3)
  have "filter_loop st1 (([s] @ mid @ [e] @ post1) @ post2)
      = (st3, ([s\<lparr>ignore := True\<rparr>] @ map (\<lambda>r. r\<lparr>ignore := True\<rparr>) mid
           @ [e\<lparr>ignore := True\<rparr>] @ map (\<lambda>r. r\<lparr>ignore := False\<rparr>) post1) @ post', o2 @ o3)"
    using 2 3 by (simp only: filter_loop_append [of _ "[s] @ mid @ [e] @ post1"] prod.case)
  then have "filter_loop ({}, {}, False) (pre @ (([s] @ mid @ [e] @ post1) @ post2))
      = (st3, pre' @ ([s\<lparr>ignore := True\<rparr>] @ map (\<lambda>r. r\<lparr>ignore := True\<rparr>) mid
           @ [e\<lparr>ignore := True\<rparr>] @ map (\<lambda>r. r\<lparr>ignore := False\<rparr>) post1) @ post',
         o1 @ o2 @ o3)"
    using 1 by (simp only: filter_loop_append [of _ pre] prod.case)
  then have "map ignore (fst (filter_ponyscript_ignores (pre @ [s] @ mid @ [e] @ post1 @ post2)))
      = map ignore pre' @ (True # replicate (length mid) True @ True
           # replicate (length post1) False) @ map ignore post'"
    by (simp add: filter_ponyscript_ignores_def comp_def map_replicate_const)
  moreover have "length (map ignore pre') = length pre"
    using filter_loop_length [OF 1] by simp
  ultimately show ?thesis by blast
qed

text \<open>
  Claim C3, as amended. When a rule with the start marker comes before a rule with the end
  marker, and neither the start rule nor any rule between them has the end marker, both
  marker rules (and the rules between them) get \<^verbatim>\<open>ignore = True\<close>, and the rules after the
  end marker, up to the next start marker, get \<^verbatim>\<open>ignore = False\<close>. The flags are read
  from the position of the start rule on.
\<close>

theorem marker_rules_ignored:
  assumes "START \<in> set (selectors s)" and "END \<notin> set (selectors s)"
    and "\<forall>r\<in>set mid. END \<notin> set (selectors r)"
    and "END \<in> set (selectors e)"
    and "\<forall>r\<in>set post1. START \<notin> set (selectors r)"
  shows "take (2 + length mid + length post1) (drop (length pre)
           (map ignore (fst (filter_ponyscript_ignores (pre @ [s] @ mid @ [e] @ post1 @ post2)))))
         = True # replicate (length mid) True @ True # replicate (length post1) False"
proof -
  from marker_rules_shape [OF assms, of pre post2]
  obtain fpre fpost where l: "length fpre = length pre" and
    f: "map ignore (fst (filter_ponyscript_ignores (pre @ [s] @ mid @ [e] @ post1 @ post2)))
       = fpre @ (True # replicate (length mid) True @ True # replicate (length post1) False)
           @ fpost"
    by blast
  show ?thesis unfolding f using l by simp
qed

theorem marker_rules_ignored_witness:
  "take 4 (drop 1 (map ignore (fst (filter_ponyscript_ignores
     [\<lparr>selectors = [''.a''], properties = [], ignore = False\<rparr>,
      \<lparr>selectors = [START], properties = [], ignore = False\<rparr>,
      \<lparr>selectors = [''.b''], properties = [], ignore = False\<rparr>,
      \<lparr>selectors = [END], properties = [], ignore = False\<rparr>,
      \<lparr>selectors = [''.c''], properties = [], ignore = False\<rparr>,
      \<lparr>selectors = [START], properties = [], ignore = False\<rparr>]))))
   = [True, True, True, False]"
proof -
  let ?s = "\<lparr>selectors = [START], properties = [], ignore = False\<rparr>"
  let ?e = "\<lparr>selectors = [END], properties = [], ignore = False\<rparr>"
  let ?mid = "[\<lparr>selectors = [''.b''], properties = [], ignore = False\<rparr>]"
  let ?post1 = "[\<lparr>selectors = [''.c''], properties = [], ignore = False\<rparr>]"
  have 1: "START \<in> set (selectors ?s)" by simp
  have 2: "END \<notin> set (selectors ?s)" by (simp add: START_def END_def)
  have 3: "\<forall>r\<in>set ?mid. END \<notin> set (selectors r)" by (simp add: END_def)
  have 4: "END \<in> set (selectors ?e)" by simp
  have 5: "\<forall>r\<in>set ?post1. START \<notin> set (selectors r)" by (simp add: START_def)
  from marker_rules_ignored [OF 1 2 3 4 5,
      of "[\<lparr>selectors = [''.a''], properties = [], ignore = False\<rparr>]" "[?s]"]
  show ?thesis by simp
qed

text \<open>
  Claim C3 as stated fails for an end marker that is not the first one after the start
  marker, and for one that follows a start rule which has the end marker itself: the
  state is a single flag, and the earlier end marker has cleared it.
\<close>

theorem later_end_marker_not_ignored:
  "map ignore (fst (filter_ponyscript_ignores
     [\<lparr>selectors = [START], properties = [], ignore = False\<rparr>,
      \<lparr>selectors = [END], properties = [], ignore = False\<rparr>,
      \<lparr>selectors = [END], properties = [], ignore = False\<rparr>]))
   = [True, True, False]
   \<and> map ignore (fst (filter_ponyscript_ignores
     [\<lparr>selectors = [START, END], properties = [], ignore = False\<rparr>,
      \<lparr>selectors = [END], properties = [], ignore = False\<rparr>]))
   = [True, False]"
  by code_simp







section \<open>The emote map builder\<close>

lemma dict_update_lookup:
  "distinct (map fst items) \<Longrightarrow>
   map_of (dict_update d items) p = (case map_of items p of Some v \<Rightarrow> Some v | None \<Rightarrow> map_of d p)"
proof (induction items arbitrary: d)
  case Nil
  then show ?case by simp
next
  case (Cons kv items)
  obtain k v where kv: "kv = (k, v)" by (cases kv)
  from Cons.prems kv have d: "distinct (map fst items)" and n: "k \<notin> fst ` set items" by auto
  from n have "map_of items k = None" by (simp add: map_of_eq_None_iff)
  with Cons.IH [OF d, of "AList.update k v d"] kv show ?case
    by (simp add: update_conv' split: option.splits)
qed







section \<open>The specials collapser\<close>

lemma wf_keyed: "wf_emote_map m \<Longrightarrow> keyed m"
  by (auto simp: wf_emote_map_def keyed_def list_all_iff dest!: map_of_SomeD)

lemma wf_iff: "wf_emote_map m \<longleftrightarrow> distinct (map fst m) \<and> keyed m"
  by (auto simp: wf_emote_map_def keyed_def list_all_iff)

lemma wf_update:
  assumes "wf_emote_map m" "k = (name v, suffix v)"
  shows "wf_emote_map (AList.update k v m)"
  using assms unfolding wf_iff
  by (auto simp: distinct_update keyed_def update_conv')

lemma build_loop_wf:
  "wf_emote_map m \<Longrightarrow> build_loop m xs = (m', out) \<Longrightarrow> wf_emote_map m'"
proof (induction xs arbitrary: m m' out)
  case Nil
  then show ?case by simp
next
  case (Cons e xs)
  let ?np = "(name e, suffix e)"
  show ?case
  proof (cases "map_of m ?np")
    case None
    with Cons.prems(2) have r: "build_loop (AList.update ?np e m) xs = (m', out)"
      by (simp add: Let_def)
    from Cons.IH [OF wf_update [OF Cons.prems(1)] r] show ?thesis by simp
  next
    case (Some old)
    let ?new = "old\<lparr>css := dict_update (css old) (css e)\<rparr>"
    from Some Cons.prems(2) obtain out' where r: "build_loop (AList.update ?np ?new m) xs = (m', out')"
      by (auto simp: Let_def split: prod.splits)
    from Some wf_keyed [OF Cons.prems(1)] have "?np = (name ?new, suffix ?new)"
      by (auto simp: keyed_def)
    from Cons.IH [OF wf_update [OF Cons.prems(1) this] r] show ?thesis .
  qed
qed

text \<open>What \<^const>\<open>build_emote_map\<close> returns is such a dictionary.\<close>

lemma build_emote_map_wf: "wf_emote_map (fst (build_emote_map xs))"
proof -
  have "wf_emote_map []" by (simp add: wf_emote_map_def)
  from build_loop_wf [OF this, of xs] show ?thesis
    by (cases "build_loop [] xs") (simp add: build_emote_map_def)
qed

lemma collapsed_fields: "name (collapsed m e) = name e" "suffix (collapsed m e) = suffix e"
  by (auto simp: collapsed_def split: option.splits)

lemma collapse_step_lookup:
  "map_of (collapse_step cur k) k' =
     (if k' = k then map_option (collapsed cur) (map_of cur k) else map_of cur k')"
  by (auto simp: collapse_step_def collapsed_def update_conv' split: option.splits)

lemma collapse_step_keys: "map fst (collapse_step cur k) = map fst cur"
proof -
  have "map_of cur k = Some e \<Longrightarrow> map fst (AList.update k v cur) = map fst cur" for e v
    using update_keys [of k v cur] map_of_eq_None_iff [of cur k] by auto
  then show ?thesis
    by (auto simp: collapse_step_def split: option.splits)
qed

lemma collapse_step_keyed: "keyed cur \<Longrightarrow> keyed (collapse_step cur k)"
  unfolding keyed_def collapse_step_lookup
  by (auto simp: collapsed_fields split: if_splits)

lemma collapse_step_base:
  assumes "keyed cur"
  shows "map_of (collapse_step cur k) (n, None) = map_of cur (n, None)"
proof (cases "k = (n, None)")
  case False
  then show ?thesis by (simp add: collapse_step_lookup)
next
  case True
  show ?thesis
  proof (cases "map_of cur k")
    case None
    with True show ?thesis by (simp add: collapse_step_lookup)
  next
    case (Some e)
    with assms True have "suffix e = None" by (auto simp: keyed_def)
    then have "collapsed cur e = e" by (simp add: collapsed_def)
    with Some True show ?thesis by (simp add: collapse_step_lookup)
  qed
qed

lemma collapsed_step: "keyed cur \<Longrightarrow> collapsed (collapse_step cur k) e = collapsed cur e"
  by (simp add: collapsed_def collapse_step_base)

lemma collapse_fold_lookup:
  "keyed cur \<Longrightarrow> distinct ks \<Longrightarrow>
   map_of (foldl collapse_step cur ks) k' =
     (if k' \<in> set ks then map_option (collapsed cur) (map_of cur k') else map_of cur k')"
proof (induction ks arbitrary: cur)
  case Nil
  then show ?case by simp
next
  case (Cons k ks)
  from Cons.prems have d: "distinct ks" and n: "k \<notin> set ks" by auto
  have c: "collapsed (collapse_step cur k) = collapsed cur"
    using collapsed_step [OF Cons.prems(1)] by (simp add: fun_eq_iff)
  from Cons.IH [OF collapse_step_keyed [OF Cons.prems(1)] d, of k] n show ?case
    by (auto simp: c collapse_step_lookup)
qed

lemma collapse_fold_keys: "map fst (foldl collapse_step cur ks) = map fst cur"
  by (induction ks arbitrary: cur) (simp_all add: collapse_step_keys)

lemma collapse_lookup:
  assumes "wf_emote_map m" "map_of m k = Some e"
  shows "map_of (collapse_specials_properties m) k = Some (collapsed m e)"
proof -
  from assms(1) have d: "distinct (map fst m)" by (simp add: wf_emote_map_def)
  from assms(2) have "k \<in> set (map fst m)" using map_of_eq_None_iff [of m k] by auto
  with collapse_fold_lookup [OF wf_keyed [OF assms(1)] d, of k] assms(2) show ?thesis
    by (simp add: collapse_specials_properties_def)
qed

lemma parse_suffix_nonempty:
  assumes "parse_emote_selector sel = (Some (n, sfx), out)"
  shows "sfx \<noteq> Some []"
proof (cases "match_selector sel")
  case None
  with assms show ?thesis by (simp add: parse_emote_selector_def)
next
  case (Some g)
  obtain pc1 nm pc2 where g: "g = (pc1, nm, pc2)" by (cases g) auto
  let ?pc = "if truthy pc1 then pc1 else pc2"
  from assms Some g have "sfx = None \<or> truthy sfx"
    by (auto simp: parse_emote_selector_def Let_def split: if_splits)
  then show ?thesis by auto
qed

lemma extract_pairs_suffix:
  "\<forall>(n, sfx)\<in>set pairs. sfx \<noteq> Some [] \<Longrightarrow>
   \<forall>e\<in>set (fst (extract_pairs combine extract rule pairs)). suffix e \<noteq> Some []"
  by (induction pairs) (auto simp: Let_def split: prod.splits)

lemma alias_pairs_suffix:
  "\<forall>(n, sfx)\<in>set (List.map_filter fst (map parse_emote_selector sels)). sfx \<noteq> Some []"
proof -
  have "sfx \<noteq> Some []" if "(n, sfx) \<in> set (List.map_filter fst (map parse_emote_selector sels))"
    for n sfx
  proof -
    from that obtain sel where "fst (parse_emote_selector sel) = Some (n, sfx)"
      by (auto simp: List.map_filter_def)
    then have "parse_emote_selector sel = (Some (n, sfx), snd (parse_emote_selector sel))"
      by (metis prod.collapse)
    then show ?thesis by (rule parse_suffix_nonempty)
  qed
  then show ?thesis by blast
qed

lemma extract_raw_emotes_suffix:
  "\<forall>e\<in>set (fst (extract_raw_emotes combine extract rules)). suffix e \<noteq> Some []"
proof (induction rules)
  case Nil
  then show ?case by simp
next
  case (Cons r rs)
  have "\<forall>e\<in>set (fst (extract_pairs combine extract r
      (List.map_filter fst (map parse_emote_selector (selectors r))))). suffix e \<noteq> Some []"
    by (rule extract_pairs_suffix [OF alias_pairs_suffix])
  with Cons show ?case
    by (auto simp: Let_def split: prod.splits)
qed

lemma update_set:
  "(k', e') \<in> set (AList.update k v m) \<Longrightarrow> (k', e') = (k, v) \<or> (k', e') \<in> set m"
  by (induction m) (auto split: if_splits)

lemma nonempty_update:
  "nonempty_suffixes m \<Longrightarrow> suffix v \<noteq> Some [] \<Longrightarrow> nonempty_suffixes (AList.update k v m)"
  unfolding nonempty_suffixes_def list_all_iff
  by (auto dest!: update_set)

lemma build_loop_nonempty:
  "nonempty_suffixes m \<Longrightarrow> \<forall>e\<in>set xs. suffix e \<noteq> Some [] \<Longrightarrow>
   build_loop m xs = (m', out) \<Longrightarrow> nonempty_suffixes m'"
proof (induction xs arbitrary: m m' out)
  case Nil
  then show ?case by simp
next
  case (Cons e xs)
  let ?np = "(name e, suffix e)"
  from Cons.prems(2) have se: "suffix e \<noteq> Some []" and rest: "\<forall>e\<in>set xs. suffix e \<noteq> Some []"
    by auto
  show ?case
  proof (cases "map_of m ?np")
    case None
    with Cons.prems(3) have r: "build_loop (AList.update ?np e m) xs = (m', out)"
      by (simp add: Let_def)
    from Cons.IH [OF nonempty_update [OF Cons.prems(1) se] rest r] show ?thesis .
  next
    case (Some old)
    let ?new = "old\<lparr>css := dict_update (css old) (css e)\<rparr>"
    from Some Cons.prems(3) obtain out' where r: "build_loop (AList.update ?np ?new m) xs = (m', out')"
      by (auto simp: Let_def split: prod.splits)
    from Some Cons.prems(1) have "suffix old \<noteq> Some []"
      by (auto simp: nonempty_suffixes_def list_all_iff dest!: map_of_SomeD)
    then have "suffix ?new \<noteq> Some []" by simp
    from Cons.IH [OF nonempty_update [OF Cons.prems(1) this] rest r] show ?thesis .
  qed
qed

lemma built_nonempty:
  "nonempty_suffixes (fst (build_emote_map (fst (extract_raw_emotes combine extract rules))))"
proof -
  have "nonempty_suffixes []" by (simp add: nonempty_suffixes_def)
  from build_loop_nonempty [OF this extract_raw_emotes_suffix, of combine "extract" rules]
  show ?thesis
    by (cases "build_loop [] (fst (extract_raw_emotes combine extract rules))")
       (simp add: build_emote_map_def)
qed

text \<open>
  Claim C6. The dictionary that \<^const>\<open>build_emote_map\<close> builds from what
  \<^const>\<open>extract_raw_emotes\<close> yields has distinct keys, each the name and suffix of its
  emote, and no emote with the empty string as suffix. In every such dictionary the keys
  stay as they are; an emote with a non-null suffix whose base emote (same name, null
  suffix) is there gets the copy of the base's properties updated with its own, so that a
  property of both has the emote's value and an emote without properties ends with
  exactly the base's; an emote without a base, and a base emote itself, is left as it is.
\<close>

theorem collapse_variant_from_base:
  "wf_emote_map (fst (build_emote_map (fst (extract_raw_emotes combine extract rules))))
   \<and> nonempty_suffixes (fst (build_emote_map (fst (extract_raw_emotes combine extract rules))))
   \<and> (wf_emote_map m \<and> nonempty_suffixes m \<and> map_of m k = Some e \<longrightarrow>
        map fst (collapse_specials_properties m) = map fst m
      \<and> (\<forall>b. suffix e \<noteq> None \<and> map_of m (name e, None) = Some b \<longrightarrow>
            map_of (collapse_specials_properties m) k
              = Some (e\<lparr>css := dict_update (css b) (css e)\<rparr>)
          \<and> (distinct (map fst (css e)) \<longrightarrow>
               (\<forall>p. map_of (dict_update (css b) (css e)) p =
                  (case map_of (css e) p of Some v \<Rightarrow> Some v | None \<Rightarrow> map_of (css b) p)))
          \<and> (css e = [] \<longrightarrow> dict_update (css b) (css e) = css b))
      \<and> (suffix e = None \<or> map_of m (name e, None) = None \<longrightarrow>
            map_of (collapse_specials_properties m) k = Some e))"
proof (intro conjI impI)
  show "wf_emote_map (fst (build_emote_map (fst (extract_raw_emotes combine extract rules))))"
    by (rule build_emote_map_wf)
  show "nonempty_suffixes (fst (build_emote_map (fst (extract_raw_emotes combine extract rules))))"
    by (rule built_nonempty)
next
  assume h: "wf_emote_map m \<and> nonempty_suffixes m \<and> map_of m k = Some e"
  show "map fst (collapse_specials_properties m) = map fst m"
    by (simp add: collapse_specials_properties_def collapse_fold_keys)
next
  assume h: "wf_emote_map m \<and> nonempty_suffixes m \<and> map_of m k = Some e"
  then have w: "wf_emote_map m" and l: "map_of m k = Some e" by simp_all
  from h have ne: "suffix e \<noteq> Some []"
    by (auto simp: nonempty_suffixes_def list_all_iff dest!: map_of_SomeD)
  show "\<forall>b. suffix e \<noteq> None \<and> map_of m (name e, None) = Some b \<longrightarrow>
            map_of (collapse_specials_properties m) k
              = Some (e\<lparr>css := dict_update (css b) (css e)\<rparr>)
          \<and> (distinct (map fst (css e)) \<longrightarrow>
               (\<forall>p. map_of (dict_update (css b) (css e)) p =
                  (case map_of (css e) p of Some v \<Rightarrow> Some v | None \<Rightarrow> map_of (css b) p)))
          \<and> (css e = [] \<longrightarrow> dict_update (css b) (css e) = css b)"
  proof (intro allI impI conjI)
    fix b
    assume g: "suffix e \<noteq> None \<and> map_of m (name e, None) = Some b"
    with ne have "truthy (suffix e)" by (cases "suffix e") auto
    with g have "collapsed m e = e\<lparr>css := dict_update (css b) (css e)\<rparr>"
      by (simp add: collapsed_def)
    with collapse_lookup [OF w l]
    show "map_of (collapse_specials_properties m) k
        = Some (e\<lparr>css := dict_update (css b) (css e)\<rparr>)"
      by simp
  next
    fix b :: partial_emote and p
    assume "distinct (map fst (css e))"
    then show "map_of (dict_update (css b) (css e)) p =
                  (case map_of (css e) p of Some v \<Rightarrow> Some v | None \<Rightarrow> map_of (css b) p)"
      by (rule dict_update_lookup)
  next
    fix b :: partial_emote
    assume "css e = []"
    then show "dict_update (css b) (css e) = css b" by simp
  qed
next
  assume h: "wf_emote_map m \<and> nonempty_suffixes m \<and> map_of m k = Some e"
  assume "suffix e = None \<or> map_of m (name e, None) = None"
  then have "collapsed m e = e"
    by (auto simp: collapsed_def)
  with collapse_lookup [of m k e] h show "map_of (collapse_specials_properties m) k = Some e"
    by simp
qed

theorem collapse_variant_from_base_witness:
  "map_of (collapse_specials_properties
      [((''/x'', None), \<lparr>name = ''/x'', suffix = None,
          css = [(''background-image'', ''X''), (''width'', ''10''), (''height'', ''10'')]\<rparr>),
       ((''/x'', Some '':hover''), \<lparr>name = ''/x'', suffix = Some '':hover'', css = []\<rparr>)])
     (''/x'', Some '':hover'')
   = Some \<lparr>name = ''/x'', suffix = Some '':hover'',
       css = [(''background-image'', ''X''), (''width'', ''10''), (''height'', ''10'')]\<rparr>"
proof -
  let ?b = "\<lparr>name = ''/x'', suffix = None,
          css = [(''background-image'', ''X''), (''width'', ''10''), (''height'', ''10'')]\<rparr>"
  let ?e = "\<lparr>name = ''/x'', suffix = Some '':hover'', css = []\<rparr>"
  let ?m = "[((''/x'', None), ?b), ((''/x'', Some '':hover''), ?e)]"
  have 1: "wf_emote_map ?m \<and> nonempty_suffixes ?m
      \<and> map_of ?m (''/x'', Some '':hover'') = Some ?e"
    by (simp add: wf_emote_map_def nonempty_suffixes_def)
  have 3: "suffix ?e \<noteq> None \<and> map_of ?m (name ?e, None) = Some ?b"
    by simp
  from collapse_variant_from_base [of _ _ _ ?m "(''/x'', Some '':hover'')" ?e] 1 3
  show ?thesis by simp
qed

section \<open>The emote classifier\<close>

lemma update_fresh: "k \<notin> fst ` set al \<Longrightarrow> AList.update k v al = al @ [(k, v)]"
  by (induction al) auto

lemma classify_loop_eq:
  "distinct (map fst m) \<Longrightarrow> fst ` set m \<inter> (fst ` set n \<union> fst ` set c) = {} \<Longrightarrow>
   classify_loop (n, c) m =
     (n @ filter (\<lambda>(k, e). is_normal (css e)) m,
      c @ map (\<lambda>(k, e). (k, \<lparr>custom_name = name e, custom_suffix = suffix e, custom_css = css e\<rparr>))
            (filter (\<lambda>(k, e). \<not> is_normal (css e)) m))"
proof (induction m arbitrary: n c)
  case Nil
  then show ?case by simp
next
  case (Cons ke m)
  obtain k e where ke: "ke = (k, e)" by (cases ke)
  from Cons.prems ke have d: "distinct (map fst m)" and km: "k \<notin> fst ` set m"
    and kn: "k \<notin> fst ` set n" and kc: "k \<notin> fst ` set c"
    and dis: "fst ` set m \<inter> (fst ` set n \<union> fst ` set c) = {}"
    by auto
  show ?case
  proof (cases "is_normal (css e)")
    case True
    have "fst ` set m \<inter> (fst ` set (n @ [(k, e)]) \<union> fst ` set c) = {}"
      using km dis by auto
    from Cons.IH [OF d this] True ke kn show ?thesis
      by (simp add: update_fresh)
  next
    case False
    let ?ce = "\<lparr>custom_name = name e, custom_suffix = suffix e, custom_css = css e\<rparr>"
    have "fst ` set m \<inter> (fst ` set n \<union> fst ` set (c @ [(k, ?ce)])) = {}"
      using km dis by auto
    from Cons.IH [OF d this] False ke kc show ?thesis
      by (simp add: update_fresh)
  qed
qed

lemma map_of_filter_distinct:
  "distinct (map fst m) \<Longrightarrow> map_of m k = Some e \<Longrightarrow>
   map_of (filter (\<lambda>(k, e). P e) m) k = (if P e then Some e else None)"
  by (induction m) (auto simp: map_of_eq_None_iff image_iff dest!: map_of_SomeD)

lemma map_of_map_snd:
  "map_of (map (\<lambda>(k, e). (k, f e)) m) k = map_option f (map_of m k)"
  by (induction m) auto

text \<open>
  Claim C7. The two returned dictionaries are the emotes with all of
  \<^verbatim>\<open>background-image\<close>, \<^verbatim>\<open>width\<close> and \<^verbatim>\<open>height\<close>, and the others, each in the order of
  the input; every key of the input is in exactly one of them and they have no other
  key; a normal emote is passed on as it is and a custom emote has the same name, suffix
  and properties. \<^verbatim>\<open>background-position\<close> plays no part.
\<close>

theorem classify_partition:
  assumes "distinct (map fst m)"
  shows "classify_emotes m =
      (filter (\<lambda>(k, e). is_normal (css e)) m,
       map (\<lambda>(k, e). (k, \<lparr>custom_name = name e, custom_suffix = suffix e, custom_css = css e\<rparr>))
         (filter (\<lambda>(k, e). \<not> is_normal (css e)) m))
    \<and> (\<forall>k\<in>set (map fst m). (k \<in> set (map fst (fst (classify_emotes m))))
          \<noteq> (k \<in> set (map fst (snd (classify_emotes m)))))
    \<and> set (map fst (fst (classify_emotes m))) \<union> set (map fst (snd (classify_emotes m)))
        = set (map fst m)
    \<and> (\<forall>k e. map_of m k = Some e \<longrightarrow>
         (if map_of (css e) ''background-image'' \<noteq> None \<and> map_of (css e) ''width'' \<noteq> None
             \<and> map_of (css e) ''height'' \<noteq> None
          then map_of (fst (classify_emotes m)) k = Some e
             \<and> map_of (snd (classify_emotes m)) k = None
          else map_of (fst (classify_emotes m)) k = None
             \<and> map_of (snd (classify_emotes m)) k
                 = Some \<lparr>custom_name = name e, custom_suffix = suffix e, custom_css = css e\<rparr>))"
proof -
  let ?N = "filter (\<lambda>(k, e). is_normal (css e)) m"
  let ?C = "map (\<lambda>(k, e). (k, \<lparr>custom_name = name e, custom_suffix = suffix e, custom_css = css e\<rparr>))
         (filter (\<lambda>(k, e). \<not> is_normal (css e)) m)"
  have eq: "classify_emotes m = (?N, ?C)"
    using classify_loop_eq [OF assms, of "[]" "[]"] by (simp add: classify_emotes_def)
  have look: "map_of ?N k = (if is_normal (css e) then Some e else None)
      \<and> map_of ?C k = (if is_normal (css e) then None
           else Some \<lparr>custom_name = name e, custom_suffix = suffix e, custom_css = css e\<rparr>)"
    if "map_of m k = Some e" for k e
    using map_of_filter_distinct [OF assms that, of "\<lambda>e. is_normal (css e)"]
      map_of_filter_distinct [OF assms that, of "\<lambda>e. \<not> is_normal (css e)"]
    by (simp add: map_of_map_snd)
  have keys: "(k \<in> set (map fst ?N)) \<noteq> (k \<in> set (map fst ?C))" if "k \<in> set (map fst m)" for k
  proof -
    from that obtain e where e: "map_of m k = Some e"
      using map_of_eq_None_iff [of m k] by auto
    have n: "k \<in> set (map fst ?N) \<longleftrightarrow> map_of ?N k \<noteq> None"
      by (simp only: map_of_eq_None_iff set_map not_not)
    have c: "k \<in> set (map fst ?C) \<longleftrightarrow> map_of ?C k \<noteq> None"
      by (simp only: map_of_eq_None_iff set_map not_not)
    show ?thesis unfolding n c using look [OF e]
      by (cases "is_normal (css e)") simp_all
  qed
  have un: "set (map fst ?N) \<union> set (map fst ?C) = set (map fst m)"
    by (auto simp: image_iff) force+
  have norm: "is_normal d \<longleftrightarrow> map_of d ''background-image'' \<noteq> None \<and> map_of d ''width'' \<noteq> None
             \<and> map_of d ''height'' \<noteq> None" for d
    by (simp add: is_normal_def has_key_def)
  show ?thesis
    unfolding eq fst_conv snd_conv using keys un look by (simp add: norm)
qed

theorem classify_partition_witness:
  "classify_emotes
     [((''/a'', None), \<lparr>name = ''/a'', suffix = None,
         css = [(''background-image'', ''X''), (''width'', ''1''), (''height'', ''2'')]\<rparr>),
      ((''/b'', None), \<lparr>name = ''/b'', suffix = None, css = [(''color'', ''red'')]\<rparr>)]
   = ([((''/a'', None), \<lparr>name = ''/a'', suffix = None,
         css = [(''background-image'', ''X''), (''width'', ''1''), (''height'', ''2'')]\<rparr>)],
      [((''/b'', None), \<lparr>custom_name = ''/b'', custom_suffix = None,
         custom_css = [(''color'', ''red'')]\<rparr>)])"
proof -
  let ?m = "[((''/a'', None), \<lparr>name = ''/a'', suffix = None,
         css = [(''background-image'', ''X''), (''width'', ''1''), (''height'', ''2'')]\<rparr>),
      ((''/b'', None), \<lparr>name = ''/b'', suffix = None, css = [(''color'', ''red'')]\<rparr>)]"
  have d: "distinct (map fst ?m)" by simp
  from classify_partition [OF d] show ?thesis
    by (simp add: is_normal_def has_key_def)
qed

section \<open>The spritesheet map builder\<close>

lemma verify_loop_eq:
  "verify_loop ems =
     (map (\<lambda>(k, e). (k, if offset e = None then e\<lparr>offset := Some (0, 0)\<rparr> else e)) ems,
      map fst (filter (\<lambda>(k, e). offset e = None) ems))"
  by (induction ems) (auto split: prod.splits)

lemma verify_spritesheet_eq:
  "verify_spritesheet url ss =
     (ss\<lparr>sheet_emotes :=
         map (\<lambda>(k, e). (k, if offset e = None then e\<lparr>offset := Some (0, 0)\<rparr> else e))
           (sheet_emotes ss)\<rparr>,
      if length (unpositioned ss) > 1 then [ErrorMultipleUnsized url (unpositioned ss)] else [])"
  by (simp add: verify_spritesheet_def verify_loop_eq unpositioned_def)

lemma verify_spritesheet_offsets:
  "(k, e) \<in> set (sheet_emotes (fst (verify_spritesheet url ss))) \<Longrightarrow> offset e \<noteq> None"
  by (auto simp: verify_spritesheet_eq)

lemma verify_all_eq:
  "verify_all sheets =
     (map (\<lambda>(url, ss). (url, fst (verify_spritesheet url ss))) sheets,
      concat (map (\<lambda>(url, ss). snd (verify_spritesheet url ss)) sheets))"
  by (induction sheets) (auto split: prod.splits)

lemma convert_emote_offset:
  assumes "convert_emote as_size as_position np url raw = Inr (e, w)"
  shows "offset e = None \<longleftrightarrow> map_of (css raw) ''background-position'' = None"
proof (cases "map_of (css raw) ''background-position''")
  case None
  with assms have "offset e = None"
    by (auto simp: convert_emote_def Let_def delete_conv' split: option.splits sum.splits)
  with None show ?thesis by simp
next
  case (Some p)
  with assms have "offset e \<noteq> None"
    by (auto simp: convert_emote_def Let_def delete_conv' split: option.splits sum.splits)
  with Some show ?thesis by simp
qed

text \<open>
  Claim C8. A converted emote has no offset exactly when the emote had no
  \<^verbatim>\<open>background-position\<close>. \<^verbatim>\<open>_verify_spritesheet\<close> gives every such emote the offset
  \<open>(0, 0)\<close> and leaves the others and the sheet's url alone, so that afterwards every
  emote of the sheet has an offset; it prints the error, naming the sheet and all the
  emotes that had no offset, exactly when there was more than one of them. The error
  stops nothing: whenever the grouping loop of \<^verbatim>\<open>build_spritesheet_map\<close> returns, the
  function returns the verified sheets, and in every sheet it returns every emote has an
  offset.
\<close>

theorem spritesheet_offsets_validated:
  "(convert_emote as_size as_position np url0 raw = Inr (e0, w) \<longrightarrow>
      (offset e0 = None \<longleftrightarrow> map_of (css raw) ''background-position'' = None))
   \<and> (verify_spritesheet url ss = (ss', out) \<longrightarrow>
        sheet_url ss' = sheet_url ss
      \<and> sheet_emotes ss' =
          map (\<lambda>(k, e). (k, if offset e = None then e\<lparr>offset := Some (0, 0)\<rparr> else e))
            (sheet_emotes ss)
      \<and> (\<forall>(k, e)\<in>set (sheet_emotes ss'). offset e \<noteq> None)
      \<and> out = (if length (unpositioned ss) > 1
               then [ErrorMultipleUnsized url (unpositioned ss)] else []))
   \<and> (group_loop as_url as_size as_position [] emote_map = (out0, Inr sheets0) \<longrightarrow>
        build_spritesheet_map as_url as_size as_position emote_map =
          (out0 @ concat (map (\<lambda>(url, ss). snd (verify_spritesheet url ss)) sheets0),
           Inr (map (\<lambda>(url, ss). (url, fst (verify_spritesheet url ss))) sheets0)))
   \<and> (build_spritesheet_map as_url as_size as_position emote_map = (out1, Inr sheets) \<longrightarrow>
        (\<forall>(url, ss)\<in>set sheets. \<forall>(k, e)\<in>set (sheet_emotes ss). offset e \<noteq> None))"
proof (intro conjI impI)
  assume "convert_emote as_size as_position np url0 raw = Inr (e0, w)"
  then show "offset e0 = None \<longleftrightarrow> map_of (css raw) ''background-position'' = None"
    by (rule convert_emote_offset)
next
  assume v: "verify_spritesheet url ss = (ss', out)"
  then show "sheet_url ss' = sheet_url ss"
    by (auto simp: verify_spritesheet_eq)
  from v show "sheet_emotes ss' =
          map (\<lambda>(k, e). (k, if offset e = None then e\<lparr>offset := Some (0, 0)\<rparr> else e))
            (sheet_emotes ss)"
    by (auto simp: verify_spritesheet_eq)
  from v have "ss' = fst (verify_spritesheet url ss)" by simp
  then show "\<forall>(k, e)\<in>set (sheet_emotes ss'). offset e \<noteq> None"
    using verify_spritesheet_offsets [of _ _ url ss] by blast
  from v show "out = (if length (unpositioned ss) > 1
               then [ErrorMultipleUnsized url (unpositioned ss)] else [])"
    by (simp add: verify_spritesheet_eq)
next
  assume "group_loop as_url as_size as_position [] emote_map = (out0, Inr sheets0)"
  then show "build_spritesheet_map as_url as_size as_position emote_map =
          (out0 @ concat (map (\<lambda>(url, ss). snd (verify_spritesheet url ss)) sheets0),
           Inr (map (\<lambda>(url, ss). (url, fst (verify_spritesheet url ss))) sheets0))"
    by (simp add: build_spritesheet_map_def verify_all_eq)
next
  assume b: "build_spritesheet_map as_url as_size as_position emote_map = (out1, Inr sheets)"
  then obtain o0 s0 where "group_loop as_url as_size as_position [] emote_map = (o0, Inr s0)"
    and "sheets = map (\<lambda>(url, ss). (url, fst (verify_spritesheet url ss))) s0"
    by (auto simp: build_spritesheet_map_def verify_all_eq split: prod.splits sum.splits)
  then show "\<forall>(url, ss)\<in>set sheets. \<forall>(k, e)\<in>set (sheet_emotes ss). offset e \<noteq> None"
    using verify_spritesheet_offsets by fastforce
qed

theorem spritesheet_offsets_validated_witness:
  "build_spritesheet_map example_as_url example_as_size example_as_position
     [((''/a'', None), unplaced ''/a''), ((''/b'', None), unplaced ''/b'')]
   = ([ErrorMultipleUnsized ''s.png'' [(''/a'', None), (''/b'', None)]],
      Inr [(''s.png'', \<lparr>sheet_url = ''s.png'',
              sheet_emotes = [((''/a'', None), converted ''/a'' (Some (0, 0))),
                              ((''/b'', None), converted ''/b'' (Some (0, 0)))]\<rparr>)])
   \<and> (offset (converted ''/a'' None) = None
        \<longleftrightarrow> map_of (css ((unplaced ''/a'')\<lparr>css := AList.delete ''background-image''
               (css (unplaced ''/a''))\<rparr>)) ''background-position'' = None)
   \<and> list_all (\<lambda>(k, e). offset e \<noteq> None)
        [((''/a'', None), converted ''/a'' (Some (0, 0))),
         ((''/b'', None), converted ''/b'' (Some (0, 0)))]"
proof -
  let ?raw = "(unplaced ''/a'')\<lparr>css := AList.delete ''background-image'' (css (unplaced ''/a''))\<rparr>"
  let ?em = "[((''/a'', None), unplaced ''/a''), ((''/b'', None), unplaced ''/b'')]"
  let ?ss = "\<lparr>sheet_url = ''s.png'',
              sheet_emotes = [((''/a'', None), converted ''/a'' None),
                              ((''/b'', None), converted ''/b'' None)]\<rparr>"
  let ?ss' = "\<lparr>sheet_url = ''s.png'',
              sheet_emotes = [((''/a'', None), converted ''/a'' (Some (0, 0))),
                              ((''/b'', None), converted ''/b'' (Some (0, 0)))]\<rparr>"
  let ?err = "[ErrorMultipleUnsized ''s.png'' [(''/a'', None), (''/b'', None)]]"
  have h1: "convert_emote example_as_size example_as_position (''/a'', None) ''s.png'' ?raw
      = Inr (converted ''/a'' None, [])"
    by code_simp
  have h2: "verify_spritesheet ''s.png'' ?ss = (?ss', ?err)"
    by code_simp
  have h3: "group_loop example_as_url example_as_size example_as_position [] ?em
      = ([], Inr [(''s.png'', ?ss)])"
    by code_simp
  have h4: "build_spritesheet_map example_as_url example_as_size example_as_position ?em
      = (?err, Inr [(''s.png'', ?ss')])"
    by code_simp
  note t = spritesheet_offsets_validated [where as_size = example_as_size
      and as_position = example_as_position and as_url = example_as_url
      and np = "(''/a'', None)" and ?url0.0 = "''s.png''" and raw = ?raw
      and ?e0.0 = "converted ''/a'' None" and w = "[]"
      and url = "''s.png''" and ss = ?ss and ss' = ?ss' and out = ?err
      and emote_map = ?em and ?out0.0 = "[]" and ?sheets0.0 = "[(''s.png'', ?ss)]"
      and ?out1.0 = ?err and sheets = "[(''s.png'', ?ss')]"]
  from t h1 have c1: "offset (converted ''/a'' None) = None
        \<longleftrightarrow> map_of (css ?raw) ''background-position'' = None"
    by blast
  from t h2 have c2: "\<forall>(k, e)\<in>set (sheet_emotes ?ss'). offset e \<noteq> None"
    by blast
  from t h3 have c3: "build_spritesheet_map example_as_url example_as_size example_as_position ?em
      = ([] @ concat (map (\<lambda>(url, ss). snd (verify_spritesheet url ss)) [(''s.png'', ?ss)]),
         Inr (map (\<lambda>(url, ss). (url, fst (verify_spritesheet url ss))) [(''s.png'', ?ss)]))"
    by blast
  from c3 h2 have "build_spritesheet_map example_as_url example_as_size example_as_position ?em
      = (?err, Inr [(''s.png'', ?ss')])"
    by simp
  with c1 c2 show ?thesis by (simp add: list_all_iff)
qed

section \<open>End to end\<close>

lemma parse_smile:
  "parse_emote_selector ''a[href|=\"/smile\"]'' = (Some (''/smile'', None), [])"
  by code_simp

text \<open>
  Claim C9, as amended. For the rule of the example, with no explicitly requested emote
  and css utilities that resolve the url to \<^verbatim>\<open>s.png\<close>, the sizes to 10 and the position
  to \<open>(0, 0)\<close>, the pipeline gives one spritesheet, keyed \<^verbatim>\<open>s.png\<close>, with the single
  normal emote \<^verbatim>\<open>("/smile", None)\<close>, the name keeping the slash of the path, of size
  \<open>(10, 10)\<close> and offset \<open>(0, 0)\<close>, no custom emote, and prints nothing.
\<close>

theorem pipeline_smile:
  assumes "as_url ''url(s.png)'' = Inr ''s.png''"
    and "as_size ''10px'' = Inr 10"
    and "as_position ''0px 0px'' 10 10 = Inr (0, 0)"
  shows "pipeline combine {} as_url as_size as_position [smile_rule\<lparr>ignore := b\<rparr>]
    = ([], Inr ([(''s.png'',
                  \<lparr>sheet_url = ''s.png'',
                   sheet_emotes =
                     [((''/smile'', None),
                       \<lparr>normal_name = ''/smile'', normal_suffix = None, normal_css = [],
                        image_url = ''s.png'', emote_size = (10, 10),
                        offset = Some (0, 0)\<rparr>)]\<rparr>)],
                []))"
proof -
  let ?props = "[(''background-image'', ''url(s.png)''), (''width'', ''10px''),
                   (''height'', ''10px''), (''background-position'', ''0px 0px'')]"
  let ?r = "\<lparr>selectors = [''a[href|=\"/smile\"]''], properties = ?props, ignore = False\<rparr>"
  let ?pe = "\<lparr>name = ''/smile'', suffix = None, css = ?props\<rparr>"
  have f: "filter_ponyscript_ignores [smile_rule\<lparr>ignore := b\<rparr>] = ([?r], [])"
    by (simp add: filter_ponyscript_ignores_def filter_step_def smile_rule_def START_def END_def)
  have x: "extract_raw_emotes combine {} [?r] = ([?pe], [])"
    by (simp add: parse_smile)
  have bm: "build_emote_map [?pe] = ([((''/smile'', None), ?pe)], [])"
    by (simp add: build_emote_map_def)
  have co: "collapse_specials_properties [((''/smile'', None), ?pe)] = [((''/smile'', None), ?pe)]"
    by (simp add: collapse_specials_properties_def collapse_step_def)
  have cl: "classify_emotes [((''/smile'', None), ?pe)] = ([((''/smile'', None), ?pe)], [])"
    by (simp add: classify_emotes_def is_normal_def has_key_def)
  have cv: "convert_emote as_size as_position (''/smile'', None) ''s.png''
       (?pe\<lparr>css := AList.delete ''background-image'' (css ?pe)\<rparr>)
     = Inr (\<lparr>normal_name = ''/smile'', normal_suffix = None, normal_css = [],
             image_url = ''s.png'', emote_size = (10, 10), offset = Some (0, 0)\<rparr>, [])"
    by (simp add: convert_emote_def assms)
  have sp: "build_spritesheet_map as_url as_size as_position [((''/smile'', None), ?pe)]
     = ([], Inr [(''s.png'',
                  \<lparr>sheet_url = ''s.png'',
                   sheet_emotes =
                     [((''/smile'', None),
                       \<lparr>normal_name = ''/smile'', normal_suffix = None, normal_css = [],
                        image_url = ''s.png'', emote_size = (10, 10),
                        offset = Some (0, 0)\<rparr>)]\<rparr>)])"
    using cv by (simp add: build_spritesheet_map_def assms(1) verify_spritesheet_def)
  show ?thesis
    unfolding pipeline_def f prod.case x bm co cl sp by simp
qed

theorem pipeline_smile_witness:
  "pipeline example_combine {} example_as_url example_as_size example_as_position
     [smile_rule\<lparr>ignore := False\<rparr>]
    = ([], Inr ([(''s.png'',
                  \<lparr>sheet_url = ''s.png'',
                   sheet_emotes =
                     [((''/smile'', None),
                       \<lparr>normal_name = ''/smile'', normal_suffix = None, normal_css = [],
                        image_url = ''s.png'', emote_size = (10, 10),
                        offset = Some (0, 0)\<rparr>)]\<rparr>)],
                []))"
proof -
  have 1: "example_as_url ''url(s.png)'' = Inr ''s.png''" by (simp add: example_as_url_def)
  have 2: "example_as_size ''10px'' = Inr 10" by (simp add: example_as_size_def)
  have 3: "example_as_position ''0px 0px'' 10 10 = Inr (0, 0)"
    by (simp add: example_as_position_def)
  show ?thesis
    by (rule pipeline_smile [where as_url = example_as_url and as_size = example_as_size
          and as_position = example_as_position, OF 1 2 3])
qed

text \<open>
  Claim C9 as stated fails: the emote is not \<^verbatim>\<open>("smile", None)\<close>. The name is the group
  of the pattern, and the group begins with the slash.
\<close>

theorem pipeline_smile_keeps_slash:
  "pipeline example_combine {} example_as_url example_as_size example_as_position [smile_rule]
    \<noteq> ([], Inr ([(''s.png'',
                  \<lparr>sheet_url = ''s.png'',
                   sheet_emotes =
                     [((''smile'', None),
                       \<lparr>normal_name = ''smile'', normal_suffix = None, normal_css = [],
                        image_url = ''s.png'', emote_size = (10, 10),
                        offset = Some (0, 0)\<rparr>)]\<rparr>)],
                []))
   \<and> fst (extract_raw_emotes example_combine {} (fst (filter_ponyscript_ignores [smile_rule])))
       = [\<lparr>name = ''/smile'', suffix = None, css = properties smile_rule\<rparr>]"
  by code_simp

end
